theory Spec2Isabelle
  imports Complex_Main "HOL-Library.Multiset" "HOL-Library.Sublist"
    "HOL-Library.Char_ord" "HOL-Library.List_Lexorder"
begin

section \<open>JavaScript values of the admin dashboard\<close>

text \<open>
  The component \<^verbatim>\<open>AdminDashboard.tsx\<close> keeps its data in plain JavaScript objects. The
  TypeScript interfaces declare every field of a Teacher, Class, Student or Announcement as a
  string, but the records arrive from the remote store as \<^verbatim>\<open>any\<close>, so a field may be
  missing and unexpected fields may be present. An object is modelled as a finite map from
  property names to string values; a missing property reads as \<^verbatim>\<open>undefined\<close>, which is
  \<open>None\<close> here.
\<close>

type_synonym obj = "string \<rightharpoonup> string"

text \<open>The value of a property read \<^verbatim>\<open>o.k\<close>: \<open>None\<close> is \<^verbatim>\<open>undefined\<close>.\<close>

type_synonym jsval = "string option"

text \<open>
  JavaScript truthiness, restricted to the values that occur: \<^verbatim>\<open>undefined\<close> and the
  empty string are falsy, every other string is truthy. \<^verbatim>\<open>!v\<close> is \<open>falsy v\<close>.
\<close>

definition falsy :: "jsval \<Rightarrow> bool" where
  "falsy v = (case v of None \<Rightarrow> True | Some s \<Rightarrow> s = [])"

text \<open>\<^verbatim>\<open>v || d\<close> for a string default \<open>d\<close>.\<close>

definition or_default :: "jsval \<Rightarrow> string \<Rightarrow> string" where
  "or_default v d = (case v of None \<Rightarrow> d | Some s \<Rightarrow> if s = [] then d else s)"

text \<open>String conversion inside a template literal: \<^verbatim>\<open>`${v}`\<close>.\<close>

definition to_string :: "jsval \<Rightarrow> string" where
  "to_string v = (case v of None \<Rightarrow> ''undefined'' | Some s \<Rightarrow> s)"

section \<open>Component state and effects\<close>

text \<open>
  A toast of the notification hook: title, description and whether the variant is
  \<^verbatim>\<open>"destructive"\<close>.
\<close>

datatype toast = Toast string string bool

definition error_toast :: toast where
  "error_toast = Toast ''Error'' ''Please fill all fields'' True"

text \<open>
  The calls a handler makes to its collaborators, in the order it makes them:
  \<^verbatim>\<open>dbPush(path, record)\<close>, \<^verbatim>\<open>dbRemove(path)\<close> and \<^verbatim>\<open>toast(...)\<close>.
\<close>

datatype effect = DbPush string obj | DbRemove string | ShowToast toast

text \<open>The state hooks of the component that the handlers read and write.\<close>

record dashboard =
  teachers :: "obj list"
  classes :: "obj list"
  students :: "obj list"
  announcements :: "obj list"
  showModal :: "string option"
  searchTerm :: string
  newTeacher :: obj
  newClass :: obj
  newStudent :: obj
  newAnnouncement :: obj

definition emptyTeacher :: obj where
  "emptyTeacher = [''name'' \<mapsto> [], ''username'' \<mapsto> [], ''password'' \<mapsto> [], ''subject'' \<mapsto> [] ]"

definition emptyClass :: obj where
  "emptyClass = [''name'' \<mapsto> [], ''grade'' \<mapsto> [], ''teacherId'' \<mapsto> [] ]"

definition emptyStudent :: obj where
  "emptyStudent = [''name'' \<mapsto> [], ''username'' \<mapsto> [], ''password'' \<mapsto> [], ''classId'' \<mapsto> [] ]"

definition emptyAnnouncement :: obj where
  "emptyAnnouncement = [''title'' \<mapsto> [], ''content'' \<mapsto> [], ''priority'' \<mapsto> ''normal'']"

text \<open>The initial values given to \<^verbatim>\<open>useState\<close>.\<close>

definition initial_dashboard :: dashboard where
  "initial_dashboard = \<lparr> teachers = [], classes = [], students = [], announcements = [],
     showModal = None, searchTerm = [], newTeacher = emptyTeacher, newClass = emptyClass,
     newStudent = emptyStudent, newAnnouncement = emptyAnnouncement \<rparr>"

section \<open>The submit handlers\<close>

text \<open>
  Each handler takes the value \<open>now\<close> of \<^verbatim>\<open>new Date().toISOString()\<close> and whether the
  promise of \<^verbatim>\<open>dbPush\<close> is fulfilled (\<open>ok\<close>). When the awaited promise is rejected the
  statements after \<^verbatim>\<open>await\<close> do not run: the push has been issued, the draft is kept and
  no toast is shown. The result is the new state and the calls made.
\<close>

definition handleAddTeacher :: "string \<Rightarrow> bool \<Rightarrow> dashboard \<Rightarrow> dashboard \<times> effect list" where
  "handleAddTeacher now ok st =
     (let d = newTeacher st in
      if falsy (d ''name'') \<or> falsy (d ''username'') \<or> falsy (d ''password'')
           \<or> falsy (d ''subject'')
      then (st, [ShowToast error_toast])
      else
        let push = DbPush ''teachers'' (d(''createdAt'' \<mapsto> now)) in
        if \<not> ok then (st, [push])
        else (st\<lparr>newTeacher := emptyTeacher, showModal := None\<rparr>,
              [push, ShowToast (Toast ''Success'' ''Teacher added successfully'' False)]))"

text \<open>\<^verbatim>\<open>xs.find(x => x.id === key)\<close> for a string \<open>key\<close>.\<close>

definition find_by_id :: "obj list \<Rightarrow> jsval \<Rightarrow> obj option" where
  "find_by_id xs key = find (\<lambda>x. x ''id'' = key) xs"

text \<open>\<^verbatim>\<open>r?.name || 'Unassigned'\<close> for the result \<open>r\<close> of \<^verbatim>\<open>find\<close>.\<close>

definition name_or_unassigned :: "obj option \<Rightarrow> string" where
  "name_or_unassigned r =
     or_default (case r of None \<Rightarrow> None | Some x \<Rightarrow> x ''name'') ''Unassigned''"

definition handleAddClass :: "string \<Rightarrow> bool \<Rightarrow> dashboard \<Rightarrow> dashboard \<times> effect list" where
  "handleAddClass now ok st =
     (let d = newClass st in
      if falsy (d ''name'') \<or> falsy (d ''grade'') \<or> falsy (d ''teacherId'')
      then (st, [ShowToast error_toast])
      else
        let teacher = find_by_id (teachers st) (d ''teacherId'');
            push = DbPush ''classes''
                     (d(''teacherName'' \<mapsto> name_or_unassigned teacher, ''createdAt'' \<mapsto> now)) in
        if \<not> ok then (st, [push])
        else (st\<lparr>newClass := emptyClass, showModal := None\<rparr>,
              [push, ShowToast (Toast ''Success'' ''Class created successfully'' False)]))"

definition handleAddStudent :: "string \<Rightarrow> bool \<Rightarrow> dashboard \<Rightarrow> dashboard \<times> effect list" where
  "handleAddStudent now ok st =
     (let d = newStudent st in
      if falsy (d ''name'') \<or> falsy (d ''username'') \<or> falsy (d ''password'')
           \<or> falsy (d ''classId'')
      then (st, [ShowToast error_toast])
      else
        let cls = find_by_id (classes st) (d ''classId'');
            push = DbPush ''students''
                     (d(''className'' \<mapsto> name_or_unassigned cls, ''createdAt'' \<mapsto> now)) in
        if \<not> ok then (st, [push])
        else (st\<lparr>newStudent := emptyStudent, showModal := None\<rparr>,
              [push, ShowToast (Toast ''Success'' ''Student enrolled successfully'' False)]))"

definition handleAddAnnouncement :: "string \<Rightarrow> bool \<Rightarrow> dashboard \<Rightarrow> dashboard \<times> effect list" where
  "handleAddAnnouncement now ok st =
     (let d = newAnnouncement st in
      if falsy (d ''title'') \<or> falsy (d ''content'')
      then (st, [ShowToast error_toast])
      else
        let push = DbPush ''announcements''
                     (d(''author'' \<mapsto> ''Principal'', ''createdAt'' \<mapsto> now)) in
        if \<not> ok then (st, [push])
        else (st\<lparr>newAnnouncement := emptyAnnouncement, showModal := None\<rparr>,
              [push, ShowToast (Toast ''Success'' ''Announcement posted'' False)]))"

text \<open>The records pushed by a list of calls, with their paths.\<close>

fun pushes :: "effect list \<Rightarrow> (string \<times> obj) list" where
  "pushes [] = []"
| "pushes (DbPush p r # es) = (p, r) # pushes es"
| "pushes (e # es) = pushes es"

section \<open>The collection subscriptions\<close>

text \<open>
  A snapshot payload is \<^verbatim>\<open>null\<close> (\<open>None\<close>) or an object from record ids to record
  bodies, given as the list \<^verbatim>\<open>Object.entries(data)\<close> enumerates. An object is truthy
  even when it has no entries.
\<close>

type_synonym payload = "(string \<times> obj) list option"

text \<open>
  \<^verbatim>\<open>([id, t]) => ({ id, ...t })\<close>: the property \<^verbatim>\<open>id\<close> is written first and the
  spread then copies every property of the body over it.
\<close>

definition with_id :: "string \<times> obj \<Rightarrow> obj" where
  "with_id e = (case e of (key, t) \<Rightarrow> [''id'' \<mapsto> key] ++ t)"

definition materialize :: "payload \<Rightarrow> obj list" where
  "materialize data = (case data of None \<Rightarrow> [] | Some entries \<Rightarrow> map with_id entries)"

text \<open>
  \<^verbatim>\<open>Array.prototype.sort(comparefn)\<close>. A comparator returns a number; \<open>None\<close> stands
  for \<^verbatim>\<open>NaN\<close>, which the sort reads as \<open>0\<close>. The sort is stable, so for a
  consistent comparator its result is the one an insertion sort gives that moves an
  element only behind elements it compares greater than. For an inconsistent comparator
  the language leaves the order to the implementation, and an engine may then also
  reorder elements that compare equal; the model keeps the insertion sort there, so it
  stands for the engine only where the comparator is consistent on the elements sorted,
  and the properties of the order proved of it are stated for that case.
\<close>

type_synonym 'a comparator = "'a \<Rightarrow> 'a \<Rightarrow> int option"

definition sort_compare :: "'a comparator \<Rightarrow> 'a \<Rightarrow> 'a \<Rightarrow> int" where
  "sort_compare cmp x y = (case cmp x y of None \<Rightarrow> 0 | Some v \<Rightarrow> v)"

fun sort_insert :: "'a comparator \<Rightarrow> 'a \<Rightarrow> 'a list \<Rightarrow> 'a list" where
  "sort_insert cmp x [] = [x]"
| "sort_insert cmp x (y # ys) =
     (if sort_compare cmp x y \<le> 0 then x # y # ys else y # sort_insert cmp x ys)"

definition array_sort :: "'a comparator \<Rightarrow> 'a list \<Rightarrow> 'a list" where
  "array_sort cmp xs = foldr (sort_insert cmp) xs []"

text \<open>
  \<^verbatim>\<open>new Date(v).getTime()\<close>: \<^verbatim>\<open>NaN\<close> for \<^verbatim>\<open>undefined\<close> and for a string that
  is not a date, the time in milliseconds otherwise. The parser of date strings belongs to
  the language runtime and is the parameter \<open>parse\<close>. Times are integers of magnitude at
  most \<open>8.64 * 10^15\<close>, so the sign of their floating-point difference is the sign of
  the integer difference.
\<close>

definition date_time :: "(string \<rightharpoonup> int) \<Rightarrow> jsval \<Rightarrow> int option" where
  "date_time parse v = (case v of None \<Rightarrow> None | Some s \<Rightarrow> parse s)"

text \<open>
  \<^verbatim>\<open>(a, b) => new Date(b.createdAt).getTime() - new Date(a.createdAt).getTime()\<close>
\<close>

definition newest_first :: "(string \<rightharpoonup> int) \<Rightarrow> obj comparator" where
  "newest_first parse a b =
     (case date_time parse (b ''createdAt'') of
        None \<Rightarrow> None
      | Some tb \<Rightarrow> (case date_time parse (a ''createdAt'') of
                     None \<Rightarrow> None
                   | Some ta \<Rightarrow> Some (tb - ta)))"

text \<open>The four listeners registered by the first effect, one per collection path.\<close>

definition on_teachers :: "payload \<Rightarrow> dashboard \<Rightarrow> dashboard" where
  "on_teachers data st = st\<lparr>teachers := materialize data\<rparr>"

definition on_classes :: "payload \<Rightarrow> dashboard \<Rightarrow> dashboard" where
  "on_classes data st = st\<lparr>classes := materialize data\<rparr>"

definition on_students :: "payload \<Rightarrow> dashboard \<Rightarrow> dashboard" where
  "on_students data st = st\<lparr>students := materialize data\<rparr>"

definition on_announcements :: "(string \<rightharpoonup> int) \<Rightarrow> payload \<Rightarrow> dashboard \<Rightarrow> dashboard" where
  "on_announcements parse data st =
     st\<lparr>announcements :=
          (case data of None \<Rightarrow> []
           | Some entries \<Rightarrow> array_sort (newest_first parse) (map with_id entries))\<rparr>"

text \<open>The array \<^verbatim>\<open>unsubs\<close>: each path with the callback \<^verbatim>\<open>dbListen\<close> is given for it.\<close>

definition mount_listeners ::
  "(string \<rightharpoonup> int) \<Rightarrow> (string \<times> (payload \<Rightarrow> dashboard \<Rightarrow> dashboard)) list" where
  "mount_listeners parse =
     [(''teachers'', on_teachers), (''classes'', on_classes), (''students'', on_students),
      (''announcements'', on_announcements parse)]"

definition mount_paths :: "string list" where
  "mount_paths = [''teachers'', ''classes'', ''students'', ''announcements'']"

text \<open>The delete buttons: \<^verbatim>\<open>dbRemove(`teachers/${t.id}`)\<close> and its three siblings.\<close>

definition remove_record :: "string \<Rightarrow> obj \<Rightarrow> effect" where
  "remove_record collection r = DbRemove (collection @ ''/'' @ to_string (r ''id''))"

section \<open>The derived views of the reports page\<close>

record grade_count =
  entry_name :: string
  entry_count :: nat

text \<open>
  The callback of \<^verbatim>\<open>classes.map\<close>: the students whose \<^verbatim>\<open>classId\<close> is strictly equal
  to the id of the class, under the label \<^verbatim>\<open>`Grade ${cls.grade}`\<close>.
\<close>

definition grade_entry :: "obj list \<Rightarrow> obj \<Rightarrow> grade_count" where
  "grade_entry studs cls =
     \<lparr> entry_name = ''Grade '' @ to_string (cls ''grade''),
       entry_count = length (filter (\<lambda>s. s ''classId'' = cls ''id'') studs) \<rparr>"

text \<open>
  The collation \<^verbatim>\<open>String.prototype.localeCompare\<close> belongs to the runtime and its
  locale; it is the parameter \<open>localeCompare\<close>, a number that is never \<^verbatim>\<open>NaN\<close>.
\<close>

definition studentsByGrade :: "(string \<Rightarrow> string \<Rightarrow> int) \<Rightarrow> dashboard \<Rightarrow> grade_count list" where
  "studentsByGrade localeCompare st =
     array_sort (\<lambda>a b. Some (localeCompare (entry_name a) (entry_name b)))
       (map (grade_entry (students st)) (classes st))"

text \<open>
  \<^verbatim>\<open>Math.round\<close> rounds to the nearest integer and a tie towards \<open>+\<infinity>\<close>. Array
  lengths are below \<open>2^32\<close>, where the floating-point quotient of two lengths lies on
  the same side of every half-integer as the exact quotient, so the quotient is taken in
  the rationals.
\<close>

definition Math_round :: "rat \<Rightarrow> int" where
  "Math_round x = \<lfloor>x + 1 / 2\<rfloor>"

definition avg_class_size :: "dashboard \<Rightarrow> int" where
  "avg_class_size st =
     (if length (classes st) > 0
      then Math_round (of_nat (length (students st)) / of_nat (length (classes st)))
      else 0)"

definition student_teacher_ratio :: "dashboard \<Rightarrow> int" where
  "student_teacher_ratio st =
     (if length (teachers st) > 0
      then Math_round (of_nat (length (students st)) / of_nat (length (teachers st)))
      else 0)"

definition total_capacity :: "dashboard \<Rightarrow> nat" where
  "total_capacity st = length (classes st) * 30"

section \<open>The timetable subscription\<close>

text \<open>
  The timetable of a class: for a day of the week its list of slots, a slot being a
  subject and a time. \<^verbatim>\<open>{}\<close> is the empty list.
\<close>

type_synonym timetable = "(string \<times> (string \<times> string) list) list"

datatype adapter_call = Subscribe nat string | Unsubscribe nat

text \<open>
  The second effect with what it touches: the selected class, the timetable data, the
  cleanup function the effect returned last (the listener it will unsubscribe), and the
  remote store adapter: its active listeners with their paths, the next listener number
  and the calls received so far.
\<close>

record timetable_view =
  selectedTimetableClass :: string
  timetableData :: timetable
  cleanup :: "nat option"
  listeners :: "(nat \<times> string) list"
  next_id :: nat
  adapter_calls :: "adapter_call list"

text \<open>
  Modelled from the spec: \<^verbatim>\<open>dbListen\<close> of \<^verbatim>\<open>@/lib/firebase\<close>, whose source is not
  part of the component. \<open>subscribe(path, onSnapshot) -> unsubscribe\<close> registers one
  listener on the path; the function it returns releases that listener, and
  unsubscribing stops future snapshot delivery.
\<close>

definition dbListen :: "string \<Rightarrow> timetable_view \<Rightarrow> nat \<times> timetable_view" where
  "dbListen path v =
     (next_id v,
      v\<lparr>listeners := listeners v @ [(next_id v, path)],
        next_id := Suc (next_id v),
        adapter_calls := adapter_calls v @ [Subscribe (next_id v) path]\<rparr>)"

definition unsub :: "nat \<Rightarrow> timetable_view \<Rightarrow> timetable_view" where
  "unsub i v =
     v\<lparr>listeners := filter (\<lambda>l. fst l \<noteq> i) (listeners v),
       adapter_calls := adapter_calls v @ [Unsubscribe i]\<rparr>"

text \<open>
  The body of the effect:
  \<^verbatim>\<open>if (!selectedTimetableClass) { setTimetableData({}); return; }\<close>, otherwise the
  listener on \<^verbatim>\<open>`schedules/${selectedTimetableClass}`\<close> and the cleanup
  \<^verbatim>\<open>() => unsub()\<close>.
\<close>

definition timetable_effect :: "timetable_view \<Rightarrow> timetable_view" where
  "timetable_effect v =
     (if selectedTimetableClass v = [] then v\<lparr>timetableData := [], cleanup := None\<rparr>
      else (case dbListen (''schedules/'' @ selectedTimetableClass v) v of
              (i, v') \<Rightarrow> v'\<lparr>cleanup := Some i\<rparr>))"

text \<open>
  The framework's rule for an effect with the dependency list
  \<^verbatim>\<open>[selectedTimetableClass]\<close>: when the dependency has changed, the cleanup of the
  previous run is called and then the effect runs again; when it has not, nothing runs.
\<close>

definition run_cleanup :: "timetable_view \<Rightarrow> timetable_view" where
  "run_cleanup v = (case cleanup v of None \<Rightarrow> v | Some i \<Rightarrow> unsub i v)"

definition select_class :: "string \<Rightarrow> timetable_view \<Rightarrow> timetable_view" where
  "select_class c v =
     (if c = selectedTimetableClass v then v
      else timetable_effect (run_cleanup (v\<lparr>selectedTimetableClass := c\<rparr>)))"

text \<open>
  A snapshot of listener \<open>i\<close>: the adapter calls the listener's callback
  \<^verbatim>\<open>(data) => setTimetableData(data || {})\<close> when the listener is still registered.
\<close>

definition emit :: "nat \<Rightarrow> timetable option \<Rightarrow> timetable_view \<Rightarrow> timetable_view" where
  "emit i data v =
     (if i \<in> set (map fst (listeners v))
      then v\<lparr>timetableData := (case data of None \<Rightarrow> [] | Some d \<Rightarrow> d)\<rparr>
      else v)"

text \<open>The view after mounting: no class is selected and the effect has run once.\<close>

definition mounted :: timetable_view where
  "mounted = timetable_effect
     \<lparr> selectedTimetableClass = [], timetableData = [], cleanup = None, listeners = [],
       next_id = 0, adapter_calls = [] \<rparr>"

datatype event = Select string | Emit nat "timetable option"

fun step :: "timetable_view \<Rightarrow> event \<Rightarrow> timetable_view" where
  "step v (Select c) = select_class c v"
| "step v (Emit i data) = emit i data v"

definition run :: "event list \<Rightarrow> timetable_view" where
  "run evs = foldl step mounted evs"

section \<open>The paths of the remote store\<close>

text \<open>
  The paths as the specification lists them, for the selected class: the four
  collections and \<^verbatim>\<open>schedules/{classId}/{day}\<close> for some day.
\<close>

definition spec_path :: "string \<Rightarrow> string \<Rightarrow> bool" where
  "spec_path classId p =
     (p \<in> set mount_paths \<or> prefix (''schedules/'' @ classId @ ''/'') p)"

text \<open>The paths among the calls the adapter has received.\<close>

fun subscribed :: "adapter_call list \<Rightarrow> string list" where
  "subscribed [] = []"
| "subscribed (Subscribe i p # cs) = p # subscribed cs"
| "subscribed (Unsubscribe i # cs) = subscribed cs"

section \<open>Notions used to state the properties\<close>

text \<open>A required field of a draft is missing when it is absent or the empty string.\<close>

definition missing_fields :: "string list \<Rightarrow> obj \<Rightarrow> bool" where
  "missing_fields required d = (\<exists>f \<in> set required. falsy (d f))"

text \<open>For every push among the calls, its path and the value of field \<open>f\<close> of its record.\<close>

definition pushed_field :: "string \<Rightarrow> effect list \<Rightarrow> (string \<times> jsval) list" where
  "pushed_field f es = map (\<lambda>(p, r). (p, r f)) (pushes es)"

text \<open>The toasts among the calls.\<close>

definition toasts :: "effect list \<Rightarrow> toast list" where
  "toasts es = concat (map (\<lambda>e. case e of ShowToast t \<Rightarrow> [t] | _ \<Rightarrow> []) es)"

text \<open>
  The contract of a submit handler for the draft \<open>d\<close> with the required fields
  \<open>required\<close> and the collection \<open>path\<close>. When a required field is missing, the only
  call is the error toast and the state is the one before. Otherwise exactly one record is
  pushed, to \<open>path\<close>, carrying every required field of the draft, none of them empty,
  and \<open>createdAt\<close>; and when the push is fulfilled, the one toast shown is a success.
\<close>

definition submit_contract ::
  "string \<Rightarrow> string list \<Rightarrow> obj \<Rightarrow> string \<Rightarrow> bool \<Rightarrow> dashboard \<Rightarrow> dashboard \<times> effect list \<Rightarrow> bool" where
  "submit_contract path required d now ok st res =
     (if missing_fields required d
      then res = (st, [ShowToast error_toast])
      else (case pushes (snd res) of
              [(p, r)] \<Rightarrow> p = path \<and> r ''createdAt'' = Some now
                           \<and> (\<forall>f \<in> set required. r f = d f \<and> \<not> falsy (r f))
            | _ \<Rightarrow> False)
           \<and> (ok \<longrightarrow> (case toasts (snd res) of
                          [Toast title a destructive] \<Rightarrow> title = ''Success'' \<and> \<not> destructive
                        | _ \<Rightarrow> False)))"

text \<open>
  \<open>x\<close> is the first element of \<open>xs\<close> whose \<^verbatim>\<open>id\<close> is \<open>key\<close>: the record a foreign
  key refers to.
\<close>

definition first_with_id :: "obj list \<Rightarrow> jsval \<Rightarrow> obj \<Rightarrow> bool" where
  "first_with_id xs key x =
     (\<exists>pre post. xs = pre @ x # post \<and> x ''id'' = key \<and> (\<forall>u \<in> set pre. u ''id'' \<noteq> key))"

text \<open>The values of field \<open>f\<close> along a collection.\<close>

definition field_values :: "string \<Rightarrow> obj list \<Rightarrow> jsval list" where
  "field_values f xs = map (\<lambda>r. r f) xs"

text \<open>
  \<open>r\<close> is the quotient \<open>s / c\<close> rounded to the nearest integer, a tie going up:
  \<open>r - 1/2 \<le> s / c < r + 1/2\<close>, cleared of fractions.
\<close>

definition nearest_half_up :: "nat \<Rightarrow> nat \<Rightarrow> int \<Rightarrow> bool" where
  "nearest_half_up s c r =
     (2 * int c * r \<le> 2 * int s + int c \<and> 2 * int s + int c < 2 * int c * (r + 1))"

text \<open>The time of creation of a record, when its \<open>createdAt\<close> is a date.\<close>

definition created_time :: "(string \<rightharpoonup> int) \<Rightarrow> obj \<Rightarrow> int option" where
  "created_time parse r = date_time parse (r ''createdAt'')"

text \<open>
  Newest first: no record stands before a record created later. Records without a time
  of creation are not compared.
\<close>

definition created_before :: "(string \<rightharpoonup> int) \<Rightarrow> obj \<Rightarrow> obj \<Rightarrow> bool" where
  "created_before parse a b =
     (case created_time parse a of
        None \<Rightarrow> False
      | Some ta \<Rightarrow> (case created_time parse b of None \<Rightarrow> False | Some tb \<Rightarrow> ta < tb))"

definition newest_first_sorted :: "(string \<rightharpoonup> int) \<Rightarrow> obj list \<Rightarrow> bool" where
  "newest_first_sorted parse xs = sorted_wrt (\<lambda>a b. \<not> created_before parse a b) xs"

text \<open>
  The comparison of two strings by their code units, as \<open>-1\<close>, \<open>0\<close> or \<open>1\<close>: the plain
  lexicographic order.
\<close>

definition code_unit_compare :: "string \<Rightarrow> string \<Rightarrow> int" where
  "code_unit_compare a b = (if a < b then - 1 else if a = b then 0 else 1)"

text \<open>
  A collation that ignores the case of the letters A to Z, as the first level of the
  runtime's collation does: it ranks \<open>a\<close> before \<open>B\<close>, where the code units rank
  \<open>B\<close> before \<open>a\<close>.
\<close>

definition fold_case :: "char \<Rightarrow> char" where
  "fold_case c =
     (case map_of (zip ''ABCDEFGHIJKLMNOPQRSTUVWXYZ'' ''abcdefghijklmnopqrstuvwxyz'') c of
        None \<Rightarrow> c
      | Some l \<Rightarrow> l)"

definition collation_compare :: "string \<Rightarrow> string \<Rightarrow> int" where
  "collation_compare a b = code_unit_compare (map fold_case a) (map fold_case b)"

text \<open>
  The invariant of the timetable view: the adapter holds exactly the listener that the
  cleanup will release, on the path of the selected class, and none when no class is
  selected, in which case the timetable is empty.
\<close>

definition view_inv :: "timetable_view \<Rightarrow> bool" where
  "view_inv v =
     ((case cleanup v of
         None \<Rightarrow> listeners v = [] \<and> selectedTimetableClass v = []
       | Some i \<Rightarrow> listeners v = [(i, ''schedules/'' @ selectedTimetableClass v)]
                   \<and> selectedTimetableClass v \<noteq> [] \<and> i < next_id v)
      \<and> (selectedTimetableClass v = [] \<longrightarrow> timetableData v = []))"

text \<open>Listener \<open>i\<close> has been handed out and is no longer registered.\<close>

definition released :: "nat \<Rightarrow> timetable_view \<Rightarrow> bool" where
  "released i v = (i < next_id v \<and> i \<notin> set (map fst (listeners v)))"

section \<open>Validation and submission\<close>

text \<open>
  C1. Each of the four submit handlers (Teacher, Class, Student, Announcement) meets the
  submit contract for its draft: when a required field is absent or empty it reports the
  error toast, makes no push and leaves the state, the draft included, as it was; otherwise
  it issues exactly one push to its collection, with every required field and
  \<open>createdAt\<close>, and reports success once the push is fulfilled.
\<close>

theorem submit_validates:
  "submit_contract ''teachers'' [''name'', ''username'', ''password'', ''subject'']
     (newTeacher st) now ok st (handleAddTeacher now ok st)
   \<and> submit_contract ''classes'' [''name'', ''grade'', ''teacherId'']
     (newClass st) now ok st (handleAddClass now ok st)
   \<and> submit_contract ''students'' [''name'', ''username'', ''password'', ''classId'']
     (newStudent st) now ok st (handleAddStudent now ok st)
   \<and> submit_contract ''announcements'' [''title'', ''content'']
     (newAnnouncement st) now ok st (handleAddAnnouncement now ok st)"
proof -
  have t: "submit_contract ''teachers'' [''name'', ''username'', ''password'', ''subject'']
     (newTeacher st) now ok st (handleAddTeacher now ok st)"
    by (simp add: submit_contract_def missing_fields_def handleAddTeacher_def Let_def toasts_def)
  have c: "submit_contract ''classes'' [''name'', ''grade'', ''teacherId'']
     (newClass st) now ok st (handleAddClass now ok st)"
    by (simp add: submit_contract_def missing_fields_def handleAddClass_def Let_def toasts_def)
  have s: "submit_contract ''students'' [''name'', ''username'', ''password'', ''classId'']
     (newStudent st) now ok st (handleAddStudent now ok st)"
    by (simp add: submit_contract_def missing_fields_def handleAddStudent_def Let_def toasts_def)
  have a: "submit_contract ''announcements'' [''title'', ''content'']
     (newAnnouncement st) now ok st (handleAddAnnouncement now ok st)"
    by (simp add: submit_contract_def missing_fields_def handleAddAnnouncement_def Let_def
        toasts_def)
  from t c s a show ?thesis by blast
qed

theorem submit_validates_witness:
  "\<not> missing_fields [''name'', ''username'', ''password'', ''subject'']
       [''name'' \<mapsto> ''Ada'', ''username'' \<mapsto> ''ada'', ''password'' \<mapsto> ''pw'', ''subject'' \<mapsto> ''Math'']
   \<and> submit_contract ''teachers'' [''name'', ''username'', ''password'', ''subject'']
       [''name'' \<mapsto> ''Ada'', ''username'' \<mapsto> ''ada'', ''password'' \<mapsto> ''pw'', ''subject'' \<mapsto> ''Math'']
       ''2024-01-01T00:00:00.000Z'' True
       (initial_dashboard\<lparr>newTeacher :=
          [''name'' \<mapsto> ''Ada'', ''username'' \<mapsto> ''ada'', ''password'' \<mapsto> ''pw'', ''subject'' \<mapsto> ''Math'']\<rparr>)
       (handleAddTeacher ''2024-01-01T00:00:00.000Z'' True
         (initial_dashboard\<lparr>newTeacher :=
            [''name'' \<mapsto> ''Ada'', ''username'' \<mapsto> ''ada'', ''password'' \<mapsto> ''pw'', ''subject'' \<mapsto> ''Math'']\<rparr>))
   \<and> missing_fields [''name'', ''grade'', ''teacherId'']
       [''name'' \<mapsto> ''5A'', ''grade'' \<mapsto> [], ''teacherId'' \<mapsto> ''t1'']
   \<and> handleAddClass ''2024-01-01T00:00:00.000Z'' True
       (initial_dashboard\<lparr>newClass := [''name'' \<mapsto> ''5A'', ''grade'' \<mapsto> [], ''teacherId'' \<mapsto> ''t1'']\<rparr>)
     = (initial_dashboard\<lparr>newClass := [''name'' \<mapsto> ''5A'', ''grade'' \<mapsto> [], ''teacherId'' \<mapsto> ''t1'']\<rparr>,
        [ShowToast error_toast])"
proof -
  let ?d = "[''name'' \<mapsto> ''Ada'', ''username'' \<mapsto> ''ada'', ''password'' \<mapsto> ''pw'', ''subject'' \<mapsto> ''Math'']"
  let ?e = "[''name'' \<mapsto> ''5A'', ''grade'' \<mapsto> [], ''teacherId'' \<mapsto> ''t1'']"
  let ?now = "''2024-01-01T00:00:00.000Z''"
  have v: "\<not> missing_fields [''name'', ''username'', ''password'', ''subject''] ?d"
    by (simp add: missing_fields_def falsy_def)
  have m: "missing_fields [''name'', ''grade'', ''teacherId''] ?e"
    by (simp add: missing_fields_def falsy_def)
  have t: "submit_contract ''teachers'' [''name'', ''username'', ''password'', ''subject'']
       (newTeacher (initial_dashboard\<lparr>newTeacher := ?d\<rparr>)) ?now True
       (initial_dashboard\<lparr>newTeacher := ?d\<rparr>)
       (handleAddTeacher ?now True (initial_dashboard\<lparr>newTeacher := ?d\<rparr>))"
    using submit_validates [of "initial_dashboard\<lparr>newTeacher := ?d\<rparr>" ?now True]
    by (rule conjunct1)
  have c: "submit_contract ''classes'' [''name'', ''grade'', ''teacherId'']
       (newClass (initial_dashboard\<lparr>newClass := ?e\<rparr>)) ?now True
       (initial_dashboard\<lparr>newClass := ?e\<rparr>)
       (handleAddClass ?now True (initial_dashboard\<lparr>newClass := ?e\<rparr>))"
    using submit_validates [of "initial_dashboard\<lparr>newClass := ?e\<rparr>" ?now True]
    by (rule conjunct1 [OF conjunct2])
  have t': "submit_contract ''teachers'' [''name'', ''username'', ''password'', ''subject'']
       ?d ?now True (initial_dashboard\<lparr>newTeacher := ?d\<rparr>)
       (handleAddTeacher ?now True (initial_dashboard\<lparr>newTeacher := ?d\<rparr>))"
    using t by simp
  have "newClass (initial_dashboard\<lparr>newClass := ?e\<rparr>) = ?e" by simp
  with c m have c': "handleAddClass ?now True (initial_dashboard\<lparr>newClass := ?e\<rparr>)
      = (initial_dashboard\<lparr>newClass := ?e\<rparr>, [ShowToast error_toast])"
    unfolding submit_contract_def by presburger
  from v t' m c' show ?thesis by (intro conjI)
qed

text \<open>
  C9. Every record the announcement handler pushes goes to \<open>announcements\<close> with the
  author \<open>Principal\<close>, whatever the draft holds. A draft with a title and a content that are
  not empty is pushed with its own priority, whatever that is; the error is reported exactly
  when the title or the content is absent or empty. The priority of the initial draft, and
  of the draft after a fulfilled submission, is \<open>normal\<close>.
\<close>

theorem announcement_author:
  "(\<forall>e \<in> set (pushed_field ''author'' (snd (handleAddAnnouncement now ok st))).
       e = (''announcements'', Some ''Principal''))
   \<and> (\<not> falsy (newAnnouncement st ''title'') \<and> \<not> falsy (newAnnouncement st ''content'') \<longrightarrow>
        pushed_field ''author'' (snd (handleAddAnnouncement now ok st))
          = [(''announcements'', Some ''Principal'')]
      \<and> pushed_field ''priority'' (snd (handleAddAnnouncement now ok st))
          = [(''announcements'', newAnnouncement st ''priority'')]
      \<and> (ok \<longrightarrow> toasts (snd (handleAddAnnouncement now ok st))
                   = [Toast ''Success'' ''Announcement posted'' False]
               \<and> newAnnouncement (fst (handleAddAnnouncement now ok st)) ''priority''
                   = Some ''normal''))
   \<and> (snd (handleAddAnnouncement now ok st) = [ShowToast error_toast] \<longleftrightarrow>
        falsy (newAnnouncement st ''title'') \<or> falsy (newAnnouncement st ''content''))
   \<and> newAnnouncement initial_dashboard ''priority'' = Some ''normal''"
  by (simp add: handleAddAnnouncement_def Let_def pushed_field_def toasts_def
      initial_dashboard_def emptyAnnouncement_def)

theorem announcement_author_witness:
  "pushed_field ''author''
     (snd (handleAddAnnouncement ''2024-01-01T00:00:00.000Z'' True
        (initial_dashboard\<lparr>newAnnouncement :=
           [''title'' \<mapsto> ''Sports day'', ''content'' \<mapsto> ''Friday'', ''priority'' \<mapsto> ''whatever'',
            ''author'' \<mapsto> ''Mallory'']\<rparr>)))
     = [(''announcements'', Some ''Principal'')]
   \<and> pushed_field ''priority''
     (snd (handleAddAnnouncement ''2024-01-01T00:00:00.000Z'' True
        (initial_dashboard\<lparr>newAnnouncement :=
           [''title'' \<mapsto> ''Sports day'', ''content'' \<mapsto> ''Friday'', ''priority'' \<mapsto> ''whatever'',
            ''author'' \<mapsto> ''Mallory'']\<rparr>)))
     = [(''announcements'', Some ''whatever'')]"
proof -
  let ?st = "initial_dashboard\<lparr>newAnnouncement :=
           [''title'' \<mapsto> ''Sports day'', ''content'' \<mapsto> ''Friday'', ''priority'' \<mapsto> ''whatever'',
            ''author'' \<mapsto> ''Mallory'']\<rparr>"
  have v: "\<not> falsy (newAnnouncement ?st ''title'') \<and> \<not> falsy (newAnnouncement ?st ''content'')"
    by (simp add: falsy_def)
  have p: "newAnnouncement ?st ''priority'' = Some ''whatever''" by simp
  note a = announcement_author [of "''2024-01-01T00:00:00.000Z''" True ?st]
  from a v have
    "pushed_field ''author'' (snd (handleAddAnnouncement ''2024-01-01T00:00:00.000Z'' True ?st))
        = [(''announcements'', Some ''Principal'')]
      \<and> pushed_field ''priority'' (snd (handleAddAnnouncement ''2024-01-01T00:00:00.000Z'' True ?st))
        = [(''announcements'', newAnnouncement ?st ''priority'')]"
    by blast
  then show ?thesis unfolding p .
qed

section \<open>Denormalized names\<close>

lemma find_by_id_first:
  "first_with_id xs key x \<Longrightarrow> find_by_id xs key = Some x"
proof -
  assume "first_with_id xs key x"
  then obtain pre post where xs: "xs = pre @ x # post" and x: "x ''id'' = key"
    and pre: "\<forall>u \<in> set pre. u ''id'' \<noteq> key"
    unfolding first_with_id_def by blast
  from pre have "find (\<lambda>u. u ''id'' = key) (pre @ x # post) = Some x"
    using x by (induction pre) simp_all
  with xs show ?thesis by (simp add: find_by_id_def)
qed

lemma find_by_id_absent:
  "\<forall>u \<in> set xs. u ''id'' \<noteq> key \<Longrightarrow> find_by_id xs key = None"
  unfolding find_by_id_def by (induction xs) simp_all

lemma first_with_id_head: "x ''id'' = key \<Longrightarrow> first_with_id (x # xs) key x"
  unfolding first_with_id_def by (rule exI [of _ "[]"]) simp

lemma pushed_class:
  "\<not> missing_fields [''name'', ''grade'', ''teacherId''] (newClass st) \<Longrightarrow>
   pushed_field ''teacherName'' (snd (handleAddClass now ok st)) =
     [(''classes'',
       Some (name_or_unassigned (find_by_id (teachers st) (newClass st ''teacherId''))))]"
  by (simp add: missing_fields_def handleAddClass_def Let_def pushed_field_def)

lemma pushed_student:
  "\<not> missing_fields [''name'', ''username'', ''password'', ''classId''] (newStudent st) \<Longrightarrow>
   pushed_field ''className'' (snd (handleAddStudent now ok st)) =
     [(''students'',
       Some (name_or_unassigned (find_by_id (classes st) (newStudent st ''classId''))))]"
  by (simp add: missing_fields_def handleAddStudent_def Let_def pushed_field_def)

text \<open>
  C5, as amended. For a Class draft with all required fields, whatever the other drafts
  hold: when no Teacher of the local collection has the draft's \<open>teacherId\<close> as id, the
  one record pushed has the \<open>teacherName\<close> \<open>Unassigned\<close>; when the first Teacher with
  that id has a name that is not empty, \<open>teacherName\<close> is that name. The same holds for
  a Student draft with all required fields, its \<open>classId\<close> and \<open>className\<close>, against
  the Class collection.
\<close>

theorem denormalized_name:
  "(\<not> missing_fields [''name'', ''grade'', ''teacherId''] (newClass st) \<longrightarrow>
      ((\<forall>t \<in> set (teachers st). t ''id'' \<noteq> newClass st ''teacherId'') \<longrightarrow>
         pushed_field ''teacherName'' (snd (handleAddClass now ok st))
           = [(''classes'', Some ''Unassigned'')])
      \<and> (\<forall>t n. first_with_id (teachers st) (newClass st ''teacherId'') t
               \<and> t ''name'' = Some n \<and> n \<noteq> [] \<longrightarrow>
         pushed_field ''teacherName'' (snd (handleAddClass now ok st))
           = [(''classes'', Some n)]))
   \<and> (\<not> missing_fields [''name'', ''username'', ''password'', ''classId''] (newStudent st) \<longrightarrow>
      ((\<forall>c \<in> set (classes st). c ''id'' \<noteq> newStudent st ''classId'') \<longrightarrow>
         pushed_field ''className'' (snd (handleAddStudent now ok st))
           = [(''students'', Some ''Unassigned'')])
      \<and> (\<forall>c n. first_with_id (classes st) (newStudent st ''classId'') c
               \<and> c ''name'' = Some n \<and> n \<noteq> [] \<longrightarrow>
         pushed_field ''className'' (snd (handleAddStudent now ok st))
           = [(''students'', Some n)]))"
proof -
  have cls: "((\<forall>t \<in> set (teachers st). t ''id'' \<noteq> newClass st ''teacherId'') \<longrightarrow>
         pushed_field ''teacherName'' (snd (handleAddClass now ok st))
           = [(''classes'', Some ''Unassigned'')])
      \<and> (\<forall>t n. first_with_id (teachers st) (newClass st ''teacherId'') t
               \<and> t ''name'' = Some n \<and> n \<noteq> [] \<longrightarrow>
         pushed_field ''teacherName'' (snd (handleAddClass now ok st))
           = [(''classes'', Some n)])"
    if v: "\<not> missing_fields [''name'', ''grade'', ''teacherId''] (newClass st)"
  proof -
    note pc = pushed_class [OF v, of now ok]
    have a: "(\<forall>t \<in> set (teachers st). t ''id'' \<noteq> newClass st ''teacherId'') \<longrightarrow>
         pushed_field ''teacherName'' (snd (handleAddClass now ok st))
           = [(''classes'', Some ''Unassigned'')]"
      by (simp add: pc find_by_id_absent name_or_unassigned_def or_default_def)
    have b: "\<forall>t n. first_with_id (teachers st) (newClass st ''teacherId'') t
               \<and> t ''name'' = Some n \<and> n \<noteq> [] \<longrightarrow>
         pushed_field ''teacherName'' (snd (handleAddClass now ok st))
           = [(''classes'', Some n)]"
      by (auto simp: pc find_by_id_first name_or_unassigned_def or_default_def)
    from a b show ?thesis by (rule conjI)
  qed
  have stu: "((\<forall>c \<in> set (classes st). c ''id'' \<noteq> newStudent st ''classId'') \<longrightarrow>
         pushed_field ''className'' (snd (handleAddStudent now ok st))
           = [(''students'', Some ''Unassigned'')])
      \<and> (\<forall>c n. first_with_id (classes st) (newStudent st ''classId'') c
               \<and> c ''name'' = Some n \<and> n \<noteq> [] \<longrightarrow>
         pushed_field ''className'' (snd (handleAddStudent now ok st))
           = [(''students'', Some n)])"
    if v: "\<not> missing_fields [''name'', ''username'', ''password'', ''classId''] (newStudent st)"
  proof -
    note ps = pushed_student [OF v, of now ok]
    have c: "(\<forall>c \<in> set (classes st). c ''id'' \<noteq> newStudent st ''classId'') \<longrightarrow>
         pushed_field ''className'' (snd (handleAddStudent now ok st))
           = [(''students'', Some ''Unassigned'')]"
      by (simp add: ps find_by_id_absent name_or_unassigned_def or_default_def)
    have d: "\<forall>c n. first_with_id (classes st) (newStudent st ''classId'') c
               \<and> c ''name'' = Some n \<and> n \<noteq> [] \<longrightarrow>
         pushed_field ''className'' (snd (handleAddStudent now ok st))
           = [(''students'', Some n)]"
      by (auto simp: ps find_by_id_first name_or_unassigned_def or_default_def)
    from c d show ?thesis by (rule conjI)
  qed
  from cls stu show ?thesis by blast
qed

theorem denormalized_name_witness:
  "missing_fields [''name'', ''username'', ''password'', ''classId'']
     (newStudent (initial_dashboard\<lparr>teachers := [ [''id'' \<mapsto> ''t1'', ''name'' \<mapsto> ''Ada''] ],
        newClass := [''name'' \<mapsto> ''5A'', ''grade'' \<mapsto> ''5'', ''teacherId'' \<mapsto> ''t1'']\<rparr>))
   \<and> pushed_field ''teacherName''
     (snd (handleAddClass ''2024-01-01T00:00:00.000Z'' True
        (initial_dashboard\<lparr>teachers := [ [''id'' \<mapsto> ''t1'', ''name'' \<mapsto> ''Ada''] ],
           newClass := [''name'' \<mapsto> ''5A'', ''grade'' \<mapsto> ''5'', ''teacherId'' \<mapsto> ''t1'']\<rparr>)))
     = [(''classes'', Some ''Ada'')]
   \<and> missing_fields [''name'', ''grade'', ''teacherId'']
     (newClass (initial_dashboard\<lparr>
        newStudent := [''name'' \<mapsto> ''Bo'', ''username'' \<mapsto> ''bo'', ''password'' \<mapsto> ''pw'',
                       ''classId'' \<mapsto> ''c9'']\<rparr>))
   \<and> pushed_field ''className''
     (snd (handleAddStudent ''2024-01-01T00:00:00.000Z'' True
        (initial_dashboard\<lparr>
           newStudent := [''name'' \<mapsto> ''Bo'', ''username'' \<mapsto> ''bo'', ''password'' \<mapsto> ''pw'',
                          ''classId'' \<mapsto> ''c9'']\<rparr>)))
     = [(''students'', Some ''Unassigned'')]"
proof -
  let ?now = "''2024-01-01T00:00:00.000Z''"
  let ?t = "[''id'' \<mapsto> ''t1'', ''name'' \<mapsto> ''Ada'']"
  let ?s1 = "initial_dashboard\<lparr>teachers := [?t],
           newClass := [''name'' \<mapsto> ''5A'', ''grade'' \<mapsto> ''5'', ''teacherId'' \<mapsto> ''t1'']\<rparr>"
  let ?s2 = "initial_dashboard\<lparr>
           newStudent := [''name'' \<mapsto> ''Bo'', ''username'' \<mapsto> ''bo'', ''password'' \<mapsto> ''pw'',
                          ''classId'' \<mapsto> ''c9'']\<rparr>"
  have m1: "missing_fields [''name'', ''username'', ''password'', ''classId''] (newStudent ?s1)"
    by (simp add: missing_fields_def falsy_def initial_dashboard_def emptyStudent_def)
  have m2: "missing_fields [''name'', ''grade'', ''teacherId''] (newClass ?s2)"
    by (simp add: missing_fields_def falsy_def initial_dashboard_def emptyClass_def)
  have h1: "\<not> missing_fields [''name'', ''grade'', ''teacherId''] (newClass ?s1)"
    by (simp add: missing_fields_def falsy_def)
  have h2: "\<not> missing_fields [''name'', ''username'', ''password'', ''classId''] (newStudent ?s2)"
    by (simp add: missing_fields_def falsy_def)
  have f: "first_with_id (teachers ?s1) (newClass ?s1 ''teacherId'') ?t"
    by (simp add: first_with_id_head)
  have n: "?t ''name'' = Some ''Ada''" by simp
  have e: "\<forall>c \<in> set (classes ?s2). c ''id'' \<noteq> newStudent ?s2 ''classId''"
    by (simp add: initial_dashboard_def)
  from denormalized_name [of ?s1 ?now True] h1 f n
  have a: "pushed_field ''teacherName'' (snd (handleAddClass ?now True ?s1))
      = [(''classes'', Some ''Ada'')]"
    by blast
  from denormalized_name [of ?s2 ?now True] h2 e
  have b: "pushed_field ''className'' (snd (handleAddStudent ?now True ?s2))
      = [(''students'', Some ''Unassigned'')]"
    by blast
  from m1 a m2 b show ?thesis by (intro conjI)
qed

theorem matched_teacher_name_counterexample:
  "find_by_id [ [''id'' \<mapsto> ''t1'', ''name'' \<mapsto> [], ''subject'' \<mapsto> ''Math''] ] (Some ''t1'') \<noteq> None
   \<and> pushed_field ''teacherName''
       (snd (handleAddClass ''2024-01-01T00:00:00.000Z'' True
          (initial_dashboard\<lparr>teachers := [ [''id'' \<mapsto> ''t1'', ''name'' \<mapsto> [], ''subject'' \<mapsto> ''Math''] ],
             newClass := [''name'' \<mapsto> ''5A'', ''grade'' \<mapsto> ''5'', ''teacherId'' \<mapsto> ''t1'']\<rparr>)))
     = [(''classes'', Some ''Unassigned'')]"
  by (simp add: find_by_id_def handleAddClass_def Let_def pushed_field_def falsy_def
      name_or_unassigned_def or_default_def initial_dashboard_def)

text \<open>
  C10. The fallback also applies to a record that is found: for a Class draft with all
  required fields, whatever the other drafts hold, when the first Teacher with the draft's
  \<open>teacherId\<close> has a name that is empty or absent, the record pushed has the
  \<open>teacherName\<close> \<open>Unassigned\<close>; likewise for a Student draft with all required fields
  whose Class has an empty or absent name.
\<close>

theorem falsy_name_unassigned:
  "(\<not> missing_fields [''name'', ''grade'', ''teacherId''] (newClass st) \<longrightarrow>
      (\<forall>t. first_with_id (teachers st) (newClass st ''teacherId'') t \<and> falsy (t ''name'') \<longrightarrow>
         pushed_field ''teacherName'' (snd (handleAddClass now ok st))
           = [(''classes'', Some ''Unassigned'')]))
   \<and> (\<not> missing_fields [''name'', ''username'', ''password'', ''classId''] (newStudent st) \<longrightarrow>
      (\<forall>c. first_with_id (classes st) (newStudent st ''classId'') c \<and> falsy (c ''name'') \<longrightarrow>
         pushed_field ''className'' (snd (handleAddStudent now ok st))
           = [(''students'', Some ''Unassigned'')]))"
proof -
  have cls: "\<forall>t. first_with_id (teachers st) (newClass st ''teacherId'') t \<and> falsy (t ''name'') \<longrightarrow>
         pushed_field ''teacherName'' (snd (handleAddClass now ok st))
           = [(''classes'', Some ''Unassigned'')]"
    if v: "\<not> missing_fields [''name'', ''grade'', ''teacherId''] (newClass st)"
    by (auto simp: pushed_class [OF v] find_by_id_first name_or_unassigned_def or_default_def
        falsy_def split: option.splits)
  have stu: "\<forall>c. first_with_id (classes st) (newStudent st ''classId'') c \<and> falsy (c ''name'') \<longrightarrow>
         pushed_field ''className'' (snd (handleAddStudent now ok st))
           = [(''students'', Some ''Unassigned'')]"
    if v: "\<not> missing_fields [''name'', ''username'', ''password'', ''classId''] (newStudent st)"
    by (auto simp: pushed_student [OF v] find_by_id_first name_or_unassigned_def or_default_def
        falsy_def split: option.splits)
  from cls stu show ?thesis by blast
qed

theorem falsy_name_unassigned_witness:
  "missing_fields [''name'', ''username'', ''password'', ''classId'']
     (newStudent (initial_dashboard\<lparr>teachers := [ [''id'' \<mapsto> ''t1'', ''name'' \<mapsto> [] ] ],
        newClass := [''name'' \<mapsto> ''5A'', ''grade'' \<mapsto> ''5'', ''teacherId'' \<mapsto> ''t1'']\<rparr>))
   \<and> pushed_field ''teacherName''
     (snd (handleAddClass ''2024-01-01T00:00:00.000Z'' True
        (initial_dashboard\<lparr>teachers := [ [''id'' \<mapsto> ''t1'', ''name'' \<mapsto> [] ] ],
           newClass := [''name'' \<mapsto> ''5A'', ''grade'' \<mapsto> ''5'', ''teacherId'' \<mapsto> ''t1'']\<rparr>)))
     = [(''classes'', Some ''Unassigned'')]
   \<and> missing_fields [''name'', ''grade'', ''teacherId'']
     (newClass (initial_dashboard\<lparr>classes := [ [''id'' \<mapsto> ''c1'', ''grade'' \<mapsto> ''5''] ],
        newStudent := [''name'' \<mapsto> ''Bo'', ''username'' \<mapsto> ''bo'', ''password'' \<mapsto> ''pw'',
                       ''classId'' \<mapsto> ''c1'']\<rparr>))
   \<and> pushed_field ''className''
     (snd (handleAddStudent ''2024-01-01T00:00:00.000Z'' True
        (initial_dashboard\<lparr>classes := [ [''id'' \<mapsto> ''c1'', ''grade'' \<mapsto> ''5''] ],
           newStudent := [''name'' \<mapsto> ''Bo'', ''username'' \<mapsto> ''bo'', ''password'' \<mapsto> ''pw'',
                          ''classId'' \<mapsto> ''c1'']\<rparr>)))
     = [(''students'', Some ''Unassigned'')]"
proof -
  let ?now = "''2024-01-01T00:00:00.000Z''"
  let ?t = "[''id'' \<mapsto> ''t1'', ''name'' \<mapsto> [] ]"
  let ?c = "[''id'' \<mapsto> ''c1'', ''grade'' \<mapsto> ''5'']"
  let ?s1 = "initial_dashboard\<lparr>teachers := [?t],
           newClass := [''name'' \<mapsto> ''5A'', ''grade'' \<mapsto> ''5'', ''teacherId'' \<mapsto> ''t1'']\<rparr>"
  let ?s2 = "initial_dashboard\<lparr>classes := [?c],
           newStudent := [''name'' \<mapsto> ''Bo'', ''username'' \<mapsto> ''bo'', ''password'' \<mapsto> ''pw'',
                          ''classId'' \<mapsto> ''c1'']\<rparr>"
  have m1: "missing_fields [''name'', ''username'', ''password'', ''classId''] (newStudent ?s1)"
    by (simp add: missing_fields_def falsy_def initial_dashboard_def emptyStudent_def)
  have m2: "missing_fields [''name'', ''grade'', ''teacherId''] (newClass ?s2)"
    by (simp add: missing_fields_def falsy_def initial_dashboard_def emptyClass_def)
  have h1: "\<not> missing_fields [''name'', ''grade'', ''teacherId''] (newClass ?s1)"
    by (simp add: missing_fields_def falsy_def)
  have h2: "\<not> missing_fields [''name'', ''username'', ''password'', ''classId''] (newStudent ?s2)"
    by (simp add: missing_fields_def falsy_def)
  have f: "first_with_id (teachers ?s1) (newClass ?s1 ''teacherId'') ?t \<and> falsy (?t ''name'')"
    by (simp add: first_with_id_head falsy_def)
  have g: "first_with_id (classes ?s2) (newStudent ?s2 ''classId'') ?c \<and> falsy (?c ''name'')"
    by (simp add: first_with_id_head falsy_def)
  from falsy_name_unassigned [of ?s1 ?now True] h1 f
  have a: "pushed_field ''teacherName'' (snd (handleAddClass ?now True ?s1))
      = [(''classes'', Some ''Unassigned'')]"
    by blast
  from falsy_name_unassigned [of ?s2 ?now True] h2 g
  have b: "pushed_field ''className'' (snd (handleAddStudent ?now True ?s2))
      = [(''students'', Some ''Unassigned'')]"
    by blast
  from m1 a m2 b show ?thesis by (intro conjI)
qed

section \<open>Sorting\<close>

lemma mset_sort_insert: "mset (sort_insert cmp x ys) = add_mset x (mset ys)"
  by (induction ys) simp_all

lemma mset_array_sort: "mset (array_sort cmp xs) = mset xs"
  unfolding array_sort_def by (induction xs) (simp_all add: mset_sort_insert)

lemma set_sort_insert: "set (sort_insert cmp x ys) = insert x (set ys)"
  using mset_sort_insert [of cmp x ys, THEN arg_cong, of set_mset] by simp

lemma set_array_sort: "set (array_sort cmp xs) = set xs"
  using mset_array_sort [of cmp xs, THEN arg_cong, of set_mset] by simp

lemma length_array_sort: "length (array_sort cmp xs) = length xs"
  using mset_array_sort [of cmp xs, THEN arg_cong, of size] by simp

lemma sorted_sort_insert:
  assumes total: "\<And>a b. a \<in> A \<Longrightarrow> b \<in> A \<Longrightarrow> 0 < sort_compare cmp a b \<Longrightarrow> sort_compare cmp b a \<le> 0"
    and trans: "\<And>a b c. a \<in> A \<Longrightarrow> b \<in> A \<Longrightarrow> c \<in> A \<Longrightarrow>
        sort_compare cmp a b \<le> 0 \<Longrightarrow> sort_compare cmp b c \<le> 0 \<Longrightarrow> sort_compare cmp a c \<le> 0"
    and sub: "insert x (set ys) \<subseteq> A"
    and sorted: "sorted_wrt (\<lambda>a b. sort_compare cmp a b \<le> 0) ys"
  shows "sorted_wrt (\<lambda>a b. sort_compare cmp a b \<le> 0) (sort_insert cmp x ys)"
  using sub sorted
proof (induction ys)
  case Nil
  then show ?case by simp
next
  case (Cons y ys)
  show ?case
  proof (cases "sort_compare cmp x y \<le> 0")
    case True
    have "sort_compare cmp x z \<le> 0" if "z \<in> set ys" for z
    proof -
      from Cons.prems(2) that have "sort_compare cmp y z \<le> 0" by simp
      with True show ?thesis using trans [of x y z] Cons.prems(1) that by auto
    qed
    with True Cons.prems(2) show ?thesis by simp
  next
    case False
    then have yx: "sort_compare cmp y x \<le> 0"
      using total [of x y] Cons.prems(1) by auto
    have ih: "sorted_wrt (\<lambda>a b. sort_compare cmp a b \<le> 0) (sort_insert cmp x ys)"
      using Cons.IH Cons.prems by auto
    have "sort_compare cmp y z \<le> 0" if "z \<in> set (sort_insert cmp x ys)" for z
      using that yx Cons.prems(2) by (auto simp: set_sort_insert)
    with False ih show ?thesis by simp
  qed
qed

lemma sorted_array_sort:
  assumes total: "\<And>a b. a \<in> A \<Longrightarrow> b \<in> A \<Longrightarrow> 0 < sort_compare cmp a b \<Longrightarrow> sort_compare cmp b a \<le> 0"
    and trans: "\<And>a b c. a \<in> A \<Longrightarrow> b \<in> A \<Longrightarrow> c \<in> A \<Longrightarrow>
        sort_compare cmp a b \<le> 0 \<Longrightarrow> sort_compare cmp b c \<le> 0 \<Longrightarrow> sort_compare cmp a c \<le> 0"
    and sub: "set xs \<subseteq> A"
  shows "sorted_wrt (\<lambda>a b. sort_compare cmp a b \<le> 0) (array_sort cmp xs)"
  using sub
proof (induction xs)
  case Nil
  then show ?case by (simp add: array_sort_def)
next
  case (Cons x xs)
  have "sorted_wrt (\<lambda>a b. sort_compare cmp a b \<le> 0) (sort_insert cmp x (array_sort cmp xs))"
  proof (rule sorted_sort_insert [where A = A])
    show "insert x (set (array_sort cmp xs)) \<subseteq> A"
      using Cons.prems by (simp add: set_array_sort)
    show "sorted_wrt (\<lambda>a b. sort_compare cmp a b \<le> 0) (array_sort cmp xs)"
      using Cons by simp
  qed (fact total trans)+
  then show ?case by (simp add: array_sort_def)
qed

lemma filter_sort_insert:
  assumes "\<And>a b. P a \<Longrightarrow> P b \<Longrightarrow> sort_compare cmp a b \<le> 0"
  shows "filter P (sort_insert cmp x ys) = filter P (x # ys)"
proof (induction ys)
  case Nil
  then show ?case by simp
next
  case (Cons y ys)
  show ?case
  proof (cases "sort_compare cmp x y \<le> 0")
    case True
    then show ?thesis by simp
  next
    case False
    with assms have "\<not> (P x \<and> P y)" by blast
    with False Cons.IH show ?thesis by auto
  qed
qed

lemma filter_array_sort:
  assumes "\<And>a b. P a \<Longrightarrow> P b \<Longrightarrow> sort_compare cmp a b \<le> 0"
  shows "filter P (array_sort cmp xs) = filter P xs"
proof (induction xs)
  case Nil
  then show ?case by (simp add: array_sort_def)
next
  case (Cons x xs)
  have "filter P (array_sort cmp (x # xs)) = filter P (x # array_sort cmp xs)"
    by (simp add: array_sort_def filter_sort_insert [OF assms])
  with Cons.IH show ?case by simp
qed

section \<open>The scalar ratios\<close>

lemma Math_round_quotient:
  assumes "0 < c"
  shows "Math_round (of_nat s / of_nat c) = (2 * int s + int c) div (2 * int c)"
proof -
  have "(of_nat s / of_nat c + 1 / 2 :: rat) = of_int (2 * int s + int c) / of_int (2 * int c)"
    using assms by (simp add: field_simps)
  then show ?thesis
    unfolding Math_round_def by (simp only: floor_divide_of_int_eq)
qed

lemma nearest_half_up_round:
  assumes "0 < c"
  shows "nearest_half_up s c (Math_round (of_nat s / of_nat c))"
proof -
  let ?n = "2 * int s + int c" and ?d = "2 * int c"
  have d: "0 < ?d" using assms by simp
  have eq: "?d * (?n div ?d) + ?n mod ?d = ?n" by simp
  have lo: "0 \<le> ?n mod ?d" and hi: "?n mod ?d < ?d" using d by simp_all
  have "?d * (?n div ?d) \<le> ?n" using eq lo by linarith
  moreover have "?n < ?d * (?n div ?d + 1)"
  proof -
    have "?d * (?n div ?d + 1) = ?d * (?n div ?d) + ?d" by (simp add: algebra_simps)
    with eq hi show ?thesis by linarith
  qed
  ultimately show ?thesis
    unfolding nearest_half_up_def Math_round_quotient [OF assms] by simp
qed

lemma nearest_half_up_unique:
  assumes "nearest_half_up s c r" and "nearest_half_up s c r'"
  shows "r = r'"
proof (rule ccontr)
  assume "r \<noteq> r'"
  then consider "r + 1 \<le> r'" | "r' + 1 \<le> r" by linarith
  then show False
  proof cases
    case 1
    then have "2 * int c * (r + 1) \<le> 2 * int c * r'" by (intro mult_left_mono) simp_all
    with assms show False unfolding nearest_half_up_def by linarith
  next
    case 2
    then have "2 * int c * (r' + 1) \<le> 2 * int c * r" by (intro mult_left_mono) simp_all
    with assms show False unfolding nearest_half_up_def by linarith
  qed
qed

text \<open>
  C4. The average class size is \<open>0\<close> when there is no class and otherwise the quotient of
  the number of students by the number of classes rounded to the nearest integer, a tie
  going up; the student/teacher ratio is the same with the teachers as divisor. A whole
  quotient \<open>k\<close> gives \<open>k\<close> and a half-way quotient \<open>k + 1/2\<close> gives \<open>k + 1\<close>.
\<close>

theorem rounded_ratios:
  "(classes st = [] \<longrightarrow> avg_class_size st = 0)
   \<and> (classes st \<noteq> [] \<longrightarrow>
        nearest_half_up (length (students st)) (length (classes st)) (avg_class_size st)
        \<and> avg_class_size st
            = Math_round (of_nat (length (students st)) / of_nat (length (classes st))))
   \<and> (teachers st = [] \<longrightarrow> student_teacher_ratio st = 0)
   \<and> (teachers st \<noteq> [] \<longrightarrow>
        nearest_half_up (length (students st)) (length (teachers st)) (student_teacher_ratio st)
        \<and> student_teacher_ratio st
            = Math_round (of_nat (length (students st)) / of_nat (length (teachers st))))
   \<and> (\<forall>k c. 0 < c \<longrightarrow> Math_round (of_nat (k * c) / of_nat c) = int k)
   \<and> (\<forall>k c. 0 < c \<longrightarrow> Math_round (of_nat ((2 * k + 1) * c) / of_nat (2 * c)) = int k + 1)"
proof -
  have a: "classes st = [] \<longrightarrow> avg_class_size st = 0"
    by (simp add: avg_class_size_def)
  have b: "classes st \<noteq> [] \<longrightarrow>
        nearest_half_up (length (students st)) (length (classes st)) (avg_class_size st)
        \<and> avg_class_size st
            = Math_round (of_nat (length (students st)) / of_nat (length (classes st)))"
    by (simp add: avg_class_size_def nearest_half_up_round)
  have c: "teachers st = [] \<longrightarrow> student_teacher_ratio st = 0"
    by (simp add: student_teacher_ratio_def)
  have d: "teachers st \<noteq> [] \<longrightarrow>
        nearest_half_up (length (students st)) (length (teachers st)) (student_teacher_ratio st)
        \<and> student_teacher_ratio st
            = Math_round (of_nat (length (students st)) / of_nat (length (teachers st)))"
    by (simp add: student_teacher_ratio_def nearest_half_up_round)
  have e: "\<forall>k c. 0 < c \<longrightarrow> Math_round (of_nat (k * c) / of_nat c) = int k"
  proof (intro allI impI)
    fix k c :: nat assume c: "0 < c"
    have "nearest_half_up (k * c) c (int k)"
      using c by (simp add: nearest_half_up_def algebra_simps)
    with nearest_half_up_round [OF c, of "k * c"]
    show "Math_round (of_nat (k * c) / of_nat c) = int k"
      by (rule nearest_half_up_unique)
  qed
  have f: "\<forall>k c. 0 < c \<longrightarrow> Math_round (of_nat ((2 * k + 1) * c) / of_nat (2 * c)) = int k + 1"
  proof (intro allI impI)
    fix k c :: nat assume c: "0 < c"
    then have c2: "0 < 2 * c" by simp
    have "nearest_half_up ((2 * k + 1) * c) (2 * c) (int k + 1)"
      using c by (simp add: nearest_half_up_def algebra_simps)
    with nearest_half_up_round [OF c2, of "(2 * k + 1) * c"]
    show "Math_round (of_nat ((2 * k + 1) * c) / of_nat (2 * c)) = int k + 1"
      by (rule nearest_half_up_unique)
  qed
  from a b c d e f show ?thesis by blast
qed

theorem rounded_ratios_witness:
  "avg_class_size
     (initial_dashboard\<lparr>
        students := [ [''name'' \<mapsto> ''s1''], [''name'' \<mapsto> ''s2''], [''name'' \<mapsto> ''s3''],
                     [''name'' \<mapsto> ''s4''], [''name'' \<mapsto> ''s5''] ],
        classes := [ [''name'' \<mapsto> ''5A''], [''name'' \<mapsto> ''5B''] ],
        teachers := [ [''name'' \<mapsto> ''Ada''], [''name'' \<mapsto> ''Bob''], [''name'' \<mapsto> ''Cy''] ]\<rparr>) = 3
   \<and> student_teacher_ratio
     (initial_dashboard\<lparr>
        students := [ [''name'' \<mapsto> ''s1''], [''name'' \<mapsto> ''s2''], [''name'' \<mapsto> ''s3''],
                     [''name'' \<mapsto> ''s4''], [''name'' \<mapsto> ''s5''] ],
        classes := [ [''name'' \<mapsto> ''5A''], [''name'' \<mapsto> ''5B''] ],
        teachers := [ [''name'' \<mapsto> ''Ada''], [''name'' \<mapsto> ''Bob''], [''name'' \<mapsto> ''Cy''] ]\<rparr>) = 2"
proof -
  let ?st = "initial_dashboard\<lparr>
        students := [ [''name'' \<mapsto> ''s1''], [''name'' \<mapsto> ''s2''], [''name'' \<mapsto> ''s3''],
                     [''name'' \<mapsto> ''s4''], [''name'' \<mapsto> ''s5''] ],
        classes := [ [''name'' \<mapsto> ''5A''], [''name'' \<mapsto> ''5B''] ],
        teachers := [ [''name'' \<mapsto> ''Ada''], [''name'' \<mapsto> ''Bob''], [''name'' \<mapsto> ''Cy''] ]\<rparr>"
  have c: "classes ?st \<noteq> []" and t: "teachers ?st \<noteq> []" by simp_all
  have ls: "length (students ?st) = 5" and lc: "length (classes ?st) = 2"
    and lt: "length (teachers ?st) = 3" by simp_all
  note r = rounded_ratios [of ?st]
  from r c have "nearest_half_up (length (students ?st)) (length (classes ?st)) (avg_class_size ?st)"
    by blast
  then have a: "avg_class_size ?st = 3"
    unfolding ls lc nearest_half_up_def by simp
  from r t have "nearest_half_up (length (students ?st)) (length (teachers ?st))
      (student_teacher_ratio ?st)"
    by blast
  then have b: "student_teacher_ratio ?st = 2"
    unfolding ls lt nearest_half_up_def by simp
  from a b show ?thesis by (rule conjI)
qed

section \<open>Snapshots of the collections\<close>

lemma with_id_field:
  "with_id (key, body) f = (if f = ''id'' \<and> body ''id'' = None then Some key else body f)"
  by (simp add: with_id_def map_add_def split: option.splits)

text \<open>
  C7, as amended. For each of the four collections a snapshot that is \<^verbatim>\<open>null\<close> or has
  no entry makes the local collection the empty sequence. Otherwise the collection holds
  one record for each entry of the snapshot, in the order of the snapshot for teachers,
  classes and students and reordered for announcements. The record of an entry has the
  fields of the body, and its \<open>id\<close> is the snapshot key when the body has no \<open>id\<close>
  of its own; an \<open>id\<close> field of the body takes precedence over the key.
\<close>

theorem snapshot_materialized:
  "map fst (mount_listeners parse) = [''teachers'', ''classes'', ''students'', ''announcements'']
   \<and> (\<forall>data. data = None \<or> data = Some [] \<longrightarrow>
        teachers (on_teachers data st) = [] \<and> classes (on_classes data st) = []
        \<and> students (on_students data st) = []
        \<and> announcements (on_announcements parse data st) = [])
   \<and> teachers (on_teachers (Some entries) st) = map with_id entries
   \<and> classes (on_classes (Some entries) st) = map with_id entries
   \<and> students (on_students (Some entries) st) = map with_id entries
   \<and> mset (announcements (on_announcements parse (Some entries) st)) = mset (map with_id entries)
   \<and> (\<forall>key body f. with_id (key, body) f
         = (if f = ''id'' \<and> body ''id'' = None then Some key else body f))"
proof -
  have a: "map fst (mount_listeners parse)
      = [''teachers'', ''classes'', ''students'', ''announcements'']"
    by (simp add: mount_listeners_def)
  have b: "\<forall>data. data = None \<or> data = Some [] \<longrightarrow>
        teachers (on_teachers data st) = [] \<and> classes (on_classes data st) = []
        \<and> students (on_students data st) = []
        \<and> announcements (on_announcements parse data st) = []"
    by (auto simp: on_teachers_def on_classes_def on_students_def on_announcements_def
        materialize_def array_sort_def)
  have c: "teachers (on_teachers (Some entries) st) = map with_id entries"
    "classes (on_classes (Some entries) st) = map with_id entries"
    "students (on_students (Some entries) st) = map with_id entries"
    by (simp_all add: on_teachers_def on_classes_def on_students_def materialize_def)
  have d: "mset (announcements (on_announcements parse (Some entries) st))
      = mset (map with_id entries)"
    by (simp add: on_announcements_def mset_array_sort)
  have e: "\<forall>key body f. with_id (key, body) f
         = (if f = ''id'' \<and> body ''id'' = None then Some key else body f)"
    by (simp add: with_id_field)
  from a b c d e show ?thesis by blast
qed

theorem snapshot_materialized_witness:
  "field_values ''id''
     (teachers (on_teachers
        (Some [(''k1'', [''name'' \<mapsto> ''Ada'']), (''k2'', [''name'' \<mapsto> ''Bob''])])
        initial_dashboard)) = [Some ''k1'', Some ''k2'']
   \<and> field_values ''name''
     (teachers (on_teachers
        (Some [(''k1'', [''name'' \<mapsto> ''Ada'']), (''k2'', [''name'' \<mapsto> ''Bob''])])
        initial_dashboard)) = [Some ''Ada'', Some ''Bob'']
   \<and> teachers (on_teachers None initial_dashboard) = []"
proof -
  note s = snapshot_materialized [of Map.empty initial_dashboard
      "[(''k1'', [''name'' \<mapsto> ''Ada'']), (''k2'', [''name'' \<mapsto> ''Bob''])]"]
  from s have t: "teachers (on_teachers
        (Some [(''k1'', [''name'' \<mapsto> ''Ada'']), (''k2'', [''name'' \<mapsto> ''Bob''])])
        initial_dashboard)
      = map with_id [(''k1'', [''name'' \<mapsto> ''Ada'']), (''k2'', [''name'' \<mapsto> ''Bob''])]"
    by blast
  from s have w: "\<And>key body f. with_id (key, body) f
         = (if f = ''id'' \<and> body ''id'' = None then Some key else body f)"
    by blast
  from s have n: "teachers (on_teachers None initial_dashboard) = []"
    by blast
  show ?thesis
    unfolding t field_values_def using n by (simp add: w)
qed

theorem body_id_counterexample:
  "field_values ''id''
     (teachers (on_teachers (Some [(''k1'', [''id'' \<mapsto> ''x'', ''name'' \<mapsto> ''Ann''])])
        initial_dashboard)) = [Some ''x'']
   \<and> field_values ''id''
     (teachers (on_teachers (Some [(''k1'', [''id'' \<mapsto> ''x'', ''name'' \<mapsto> ''Ann''])])
        initial_dashboard)) \<noteq> [Some ''k1'']"
  by (simp add: field_values_def on_teachers_def materialize_def with_id_def)

section \<open>The order of the announcements\<close>

lemma newest_first_compare:
  "sort_compare (newest_first parse) a b \<le> 0 \<longleftrightarrow> \<not> created_before parse a b"
  by (auto simp: sort_compare_def newest_first_def created_before_def created_time_def
      split: option.splits)

lemma newest_first_equal:
  "a ''createdAt'' = b ''createdAt'' \<Longrightarrow> sort_compare (newest_first parse) a b \<le> 0"
  by (simp add: sort_compare_def newest_first_def split: option.splits)

lemma newest_first_same_time:
  "created_time parse a = Some t \<Longrightarrow> created_time parse b = Some t \<Longrightarrow>
   sort_compare (newest_first parse) a b \<le> 0"
  by (simp add: sort_compare_def newest_first_def created_time_def)

lemma newest_first_sorted_dated:
  assumes "\<forall>r \<in> set xs. created_time parse r \<noteq> None"
  shows "newest_first_sorted parse (array_sort (newest_first parse) xs)"
proof -
  let ?A = "{r. created_time parse r \<noteq> None}"
  have "sorted_wrt (\<lambda>a b. sort_compare (newest_first parse) a b \<le> 0)
          (array_sort (newest_first parse) xs)"
  proof (rule sorted_array_sort [where A = ?A])
    fix a b assume "a \<in> ?A" "b \<in> ?A" "0 < sort_compare (newest_first parse) a b"
    then show "sort_compare (newest_first parse) b a \<le> 0"
      by (auto simp: sort_compare_def newest_first_def created_time_def split: option.splits)
  next
    fix a b c assume "a \<in> ?A" "b \<in> ?A" "c \<in> ?A"
      "sort_compare (newest_first parse) a b \<le> 0" "sort_compare (newest_first parse) b c \<le> 0"
    then show "sort_compare (newest_first parse) a c \<le> 0"
      by (auto simp: sort_compare_def newest_first_def created_time_def split: option.splits)
  next
    show "set xs \<subseteq> ?A" using assms by blast
  qed
  then show ?thesis
    by (simp add: newest_first_sorted_def newest_first_compare)
qed

text \<open>
  C2, as amended. For every snapshot delivered to the announcements subscription in which
  the \<open>createdAt\<close> of every record is a date, the local sequence holds the records of the
  snapshot ordered by time of creation, newest first: every record has a time of creation
  and none stands before a record created later; and the order is stable: records with
  equal \<open>createdAt\<close>, and records with equal times of creation, keep the order in which
  the snapshot lists them. For every snapshot the local sequence holds exactly the records
  of the snapshot.
\<close>

theorem announcements_newest_first:
  "((\<forall>r \<in> set (map with_id entries). created_time parse r \<noteq> None) \<longrightarrow>
       newest_first_sorted parse (announcements (on_announcements parse (Some entries) st))
     \<and> (\<forall>r \<in> set (announcements (on_announcements parse (Some entries) st)).
           created_time parse r \<noteq> None)
     \<and> (\<forall>v. filter (\<lambda>r. r ''createdAt'' = v)
                (announcements (on_announcements parse (Some entries) st))
            = filter (\<lambda>r. r ''createdAt'' = v) (map with_id entries))
     \<and> (\<forall>t. filter (\<lambda>r. created_time parse r = Some t)
                (announcements (on_announcements parse (Some entries) st))
            = filter (\<lambda>r. created_time parse r = Some t) (map with_id entries)))
   \<and> mset (announcements (on_announcements parse (Some entries) st)) = mset (map with_id entries)"
proof -
  let ?xs = "map with_id entries"
  have eq: "announcements (on_announcements parse (Some entries) st)
      = array_sort (newest_first parse) ?xs"
    by (simp add: on_announcements_def)
  have a: "newest_first_sorted parse (array_sort (newest_first parse) ?xs)
     \<and> (\<forall>r \<in> set (array_sort (newest_first parse) ?xs). created_time parse r \<noteq> None)"
    if dated: "\<forall>r \<in> set ?xs. created_time parse r \<noteq> None"
    using newest_first_sorted_dated [OF dated] dated by (simp only: set_array_sort)
  have b: "mset (array_sort (newest_first parse) ?xs) = mset ?xs"
    by (rule mset_array_sort)
  have c: "\<forall>v. filter (\<lambda>r. r ''createdAt'' = v) (array_sort (newest_first parse) ?xs)
          = filter (\<lambda>r. r ''createdAt'' = v) ?xs"
  proof
    fix v
    show "filter (\<lambda>r. r ''createdAt'' = v) (array_sort (newest_first parse) ?xs)
          = filter (\<lambda>r. r ''createdAt'' = v) ?xs"
      by (rule filter_array_sort) (simp add: newest_first_equal)
  qed
  have d: "\<forall>t. filter (\<lambda>r. created_time parse r = Some t) (array_sort (newest_first parse) ?xs)
          = filter (\<lambda>r. created_time parse r = Some t) ?xs"
  proof
    fix t
    show "filter (\<lambda>r. created_time parse r = Some t) (array_sort (newest_first parse) ?xs)
          = filter (\<lambda>r. created_time parse r = Some t) ?xs"
      by (rule filter_array_sort) (rule newest_first_same_time)
  qed
  from a b c d show ?thesis unfolding eq by blast
qed

text \<open>
  A snapshot of three records of which the second has a \<open>createdAt\<close> that is no date.
  Every comparison with the second record is \<^verbatim>\<open>NaN\<close>, read as \<open>0\<close>; an engine that
  detects runs and inserts, as V8 does, compares the second record with the first and the
  third with the second and moves nothing, as the insertion sort here.
\<close>

theorem unparseable_date_counterexample:
  "field_values ''id''
     (announcements (on_announcements
        [''2024-01-01T00:00:00.000Z'' \<mapsto> 1704067200000, ''2024-01-02T00:00:00.000Z'' \<mapsto> 1704153600000]
        (Some [(''a'', [''title'' \<mapsto> ''Old'', ''createdAt'' \<mapsto> ''2024-01-01T00:00:00.000Z'']),
               (''b'', [''title'' \<mapsto> ''Undated'', ''createdAt'' \<mapsto> ''pending'']),
               (''c'', [''title'' \<mapsto> ''New'', ''createdAt'' \<mapsto> ''2024-01-02T00:00:00.000Z''])])
        initial_dashboard))
     = [Some ''a'', Some ''b'', Some ''c'']
   \<and> \<not> newest_first_sorted
        [''2024-01-01T00:00:00.000Z'' \<mapsto> 1704067200000, ''2024-01-02T00:00:00.000Z'' \<mapsto> 1704153600000]
     (announcements (on_announcements
        [''2024-01-01T00:00:00.000Z'' \<mapsto> 1704067200000, ''2024-01-02T00:00:00.000Z'' \<mapsto> 1704153600000]
        (Some [(''a'', [''title'' \<mapsto> ''Old'', ''createdAt'' \<mapsto> ''2024-01-01T00:00:00.000Z'']),
               (''b'', [''title'' \<mapsto> ''Undated'', ''createdAt'' \<mapsto> ''pending'']),
               (''c'', [''title'' \<mapsto> ''New'', ''createdAt'' \<mapsto> ''2024-01-02T00:00:00.000Z''])])
        initial_dashboard))"
proof -
  let ?p = "[''2024-01-01T00:00:00.000Z'' \<mapsto> (1704067200000::int),
             ''2024-01-02T00:00:00.000Z'' \<mapsto> 1704153600000]"
  let ?a = "with_id (''a'', [''title'' \<mapsto> ''Old'', ''createdAt'' \<mapsto> ''2024-01-01T00:00:00.000Z''])"
  let ?b = "with_id (''b'', [''title'' \<mapsto> ''Undated'', ''createdAt'' \<mapsto> ''pending''])"
  let ?c = "with_id (''c'', [''title'' \<mapsto> ''New'', ''createdAt'' \<mapsto> ''2024-01-02T00:00:00.000Z''])"
  have ta: "created_time ?p ?a = Some 1704067200000"
    by (simp add: created_time_def date_time_def with_id_def)
  have tb: "created_time ?p ?b = None"
    by (simp add: created_time_def date_time_def with_id_def)
  have tc: "created_time ?p ?c = Some 1704153600000"
    by (simp add: created_time_def date_time_def with_id_def)
  have ab: "sort_compare (newest_first ?p) ?a ?b \<le> 0"
    unfolding newest_first_compare by (simp add: created_before_def ta tb)
  have bc: "sort_compare (newest_first ?p) ?b ?c \<le> 0"
    unfolding newest_first_compare by (simp add: created_before_def tb)
  have sorted: "array_sort (newest_first ?p) [?a, ?b, ?c] = [?a, ?b, ?c]"
    using ab bc by (simp add: array_sort_def)
  have ids: "field_values ''id'' [?a, ?b, ?c] = [Some ''a'', Some ''b'', Some ''c'']"
    by (simp add: field_values_def with_id_def)
  have inv: "created_before ?p ?a ?c"
    by (simp add: created_before_def ta tc)
  have "\<not> newest_first_sorted ?p [?a, ?b, ?c]"
    using inv by (simp add: newest_first_sorted_def)
  with ids show ?thesis
    by (simp only: on_announcements_def dashboard.simps list.map option.case sorted) simp
qed

theorem announcements_newest_first_witness:
  "newest_first_sorted
     [''2024-01-01T00:00:00.000Z'' \<mapsto> 1704067200000, ''2024-01-02T00:00:00.000Z'' \<mapsto> 1704153600000]
     (announcements (on_announcements
        [''2024-01-01T00:00:00.000Z'' \<mapsto> 1704067200000, ''2024-01-02T00:00:00.000Z'' \<mapsto> 1704153600000]
        (Some [(''a'', [''title'' \<mapsto> ''Old'', ''createdAt'' \<mapsto> ''2024-01-01T00:00:00.000Z'']),
               (''b'', [''title'' \<mapsto> ''New'', ''createdAt'' \<mapsto> ''2024-01-02T00:00:00.000Z'']),
               (''c'', [''title'' \<mapsto> ''Old too'', ''createdAt'' \<mapsto> ''2024-01-01T00:00:00.000Z''])])
        initial_dashboard))
   \<and> field_values ''id''
     (announcements (on_announcements
        [''2024-01-01T00:00:00.000Z'' \<mapsto> 1704067200000, ''2024-01-02T00:00:00.000Z'' \<mapsto> 1704153600000]
        (Some [(''a'', [''title'' \<mapsto> ''Old'', ''createdAt'' \<mapsto> ''2024-01-01T00:00:00.000Z'']),
               (''b'', [''title'' \<mapsto> ''New'', ''createdAt'' \<mapsto> ''2024-01-02T00:00:00.000Z'']),
               (''c'', [''title'' \<mapsto> ''Old too'', ''createdAt'' \<mapsto> ''2024-01-01T00:00:00.000Z''])])
        initial_dashboard))
     = [Some ''b'', Some ''a'', Some ''c'']"
proof -
  let ?p = "[''2024-01-01T00:00:00.000Z'' \<mapsto> (1704067200000::int),
             ''2024-01-02T00:00:00.000Z'' \<mapsto> 1704153600000]"
  let ?ea = "(''a'', [''title'' \<mapsto> ''Old'', ''createdAt'' \<mapsto> ''2024-01-01T00:00:00.000Z''])"
  let ?eb = "(''b'', [''title'' \<mapsto> ''New'', ''createdAt'' \<mapsto> ''2024-01-02T00:00:00.000Z''])"
  let ?ec = "(''c'', [''title'' \<mapsto> ''Old too'', ''createdAt'' \<mapsto> ''2024-01-01T00:00:00.000Z''])"
  have ta: "created_time ?p (with_id ?ea) = Some 1704067200000"
    by (simp add: created_time_def date_time_def with_id_def)
  have tb: "created_time ?p (with_id ?eb) = Some 1704153600000"
    by (simp add: created_time_def date_time_def with_id_def)
  have tc: "created_time ?p (with_id ?ec) = Some 1704067200000"
    by (simp add: created_time_def date_time_def with_id_def)
  have dated: "\<forall>r \<in> set (map with_id [?ea, ?eb, ?ec]). created_time ?p r \<noteq> None"
    using ta tb tc by simp
  from announcements_newest_first [of "[?ea, ?eb, ?ec]" ?p initial_dashboard] dated
  have s: "newest_first_sorted ?p
      (announcements (on_announcements ?p (Some [?ea, ?eb, ?ec]) initial_dashboard))"
    by blast
  have bc: "sort_compare (newest_first ?p) (with_id ?eb) (with_id ?ec) \<le> 0"
    unfolding newest_first_compare by (simp add: created_before_def tb tc)
  have ab: "\<not> sort_compare (newest_first ?p) (with_id ?ea) (with_id ?eb) \<le> 0"
    unfolding newest_first_compare by (simp add: created_before_def ta tb)
  have ac: "sort_compare (newest_first ?p) (with_id ?ea) (with_id ?ec) \<le> 0"
    unfolding newest_first_compare by (simp add: created_before_def ta tc)
  have sorted: "array_sort (newest_first ?p) [with_id ?ea, with_id ?eb, with_id ?ec]
      = [with_id ?eb, with_id ?ea, with_id ?ec]"
    using ab bc ac by (simp add: array_sort_def)
  have ids: "field_values ''id'' [with_id ?eb, with_id ?ea, with_id ?ec]
      = [Some ''b'', Some ''a'', Some ''c'']"
    by (simp add: field_values_def with_id_def)
  have "field_values ''id''
      (announcements (on_announcements ?p (Some [?ea, ?eb, ?ec]) initial_dashboard))
      = [Some ''b'', Some ''a'', Some ''c'']"
    using ids by (simp only: on_announcements_def list.map option.case sorted) simp
  with s show ?thesis by (rule conjI)
qed

section \<open>Enrollment by grade\<close>

lemma code_unit_compare_total: "0 < code_unit_compare a b \<Longrightarrow> code_unit_compare b a \<le> 0"
  by (auto simp: code_unit_compare_def split: if_splits)

lemma code_unit_compare_trans:
  "code_unit_compare a b \<le> 0 \<Longrightarrow> code_unit_compare b c \<le> 0 \<Longrightarrow> code_unit_compare a c \<le> 0"
  by (auto simp: code_unit_compare_def split: if_splits)

lemma one_class_per_student:
  "distinct (map f cs) \<Longrightarrow> k \<in> f ` set cs \<Longrightarrow>
   sum_list (map (\<lambda>c. if k = f c then 1 else 0) cs) = (1::nat)"
proof (induction cs)
  case Nil
  then show ?case by simp
next
  case (Cons c cs)
  show ?case
  proof (cases "k = f c")
    case True
    with Cons.prems have "\<forall>c' \<in> set cs. k \<noteq> f c'" by auto
    then have "sum_list (map (\<lambda>c. if k = f c then 1 else 0) cs) = (0::nat)"
      by (induction cs) simp_all
    with True show ?thesis by simp
  next
    case False
    with Cons show ?thesis by auto
  qed
qed

lemma enrolled_total:
  assumes "distinct (map (\<lambda>c. c ''id'') cs)"
    and "\<forall>s \<in> set studs. \<exists>c \<in> set cs. s ''classId'' = c ''id''"
  shows "sum_list (map (\<lambda>c. length (filter (\<lambda>s. s ''classId'' = c ''id'') studs)) cs)
      = length studs"
  using assms(2)
proof (induction studs)
  case Nil
  then show ?case by simp
next
  case (Cons s studs)
  have one: "sum_list (map (\<lambda>c. if s ''classId'' = c ''id'' then 1 else 0) cs) = (1::nat)"
    using Cons.prems by (intro one_class_per_student [OF assms(1)]) auto
  have "sum_list (map (\<lambda>c. length (filter (\<lambda>s. s ''classId'' = c ''id'') (s # studs))) cs)
      = sum_list (map (\<lambda>c. (if s ''classId'' = c ''id'' then 1 else 0)
            + length (filter (\<lambda>s. s ''classId'' = c ''id'') studs)) cs)"
    by (intro arg_cong [where f = sum_list] map_cong) simp_all
  also have "\<dots> = sum_list (map (\<lambda>c. if s ''classId'' = c ''id'' then 1 else 0) cs)
      + sum_list (map (\<lambda>c. length (filter (\<lambda>s. s ''classId'' = c ''id'') studs)) cs)"
    by (simp add: sum_list_addf)
  also have "\<dots> = 1 + length studs"
    using one Cons by simp
  finally show ?case by simp
qed

lemma sum_counts_sorted:
  "sum_list (map entry_count (studentsByGrade localeCompare st))
     = sum_list (map (\<lambda>c. length (filter (\<lambda>s. s ''classId'' = c ''id'') (students st)))
         (classes st))"
proof -
  have "mset (map entry_count (studentsByGrade localeCompare st))
      = mset (map entry_count (map (grade_entry (students st)) (classes st)))"
    unfolding studentsByGrade_def by (simp only: mset_map mset_array_sort)
  then have "sum_list (map entry_count (studentsByGrade localeCompare st))
      = sum_list (map entry_count (map (grade_entry (students st)) (classes st)))"
    by (metis sum_mset_sum_list)
  then show ?thesis by (simp add: grade_entry_def comp_def)
qed

lemma studentsByGrade_sorted:
  assumes total: "\<And>a b. 0 < localeCompare a b \<Longrightarrow> localeCompare b a \<le> 0"
    and trans: "\<And>a b c. localeCompare a b \<le> 0 \<Longrightarrow> localeCompare b c \<le> 0 \<Longrightarrow>
        localeCompare a c \<le> 0"
  shows "sorted_wrt (\<lambda>a b. localeCompare (entry_name a) (entry_name b) \<le> 0)
           (studentsByGrade localeCompare st)"
proof -
  let ?cmp = "\<lambda>a b. Some (localeCompare (entry_name a) (entry_name b))"
  let ?es = "map (grade_entry (students st)) (classes st)"
  have "sorted_wrt (\<lambda>a b. sort_compare ?cmp a b \<le> 0) (array_sort ?cmp ?es)"
  proof (rule sorted_array_sort [where A = UNIV])
    fix a b :: grade_count
    assume "0 < sort_compare ?cmp a b"
    then show "sort_compare ?cmp b a \<le> 0"
      using total by (simp add: sort_compare_def)
  next
    fix a b c :: grade_count
    assume "sort_compare ?cmp a b \<le> 0" "sort_compare ?cmp b c \<le> 0"
    then show "sort_compare ?cmp a c \<le> 0"
      using trans by (simp add: sort_compare_def)
  qed simp
  then show ?thesis
    by (simp add: studentsByGrade_def sort_compare_def)
qed

lemma collation_compare_total:
  "0 < collation_compare a b \<Longrightarrow> collation_compare b a \<le> 0"
  unfolding collation_compare_def by (rule code_unit_compare_total)

lemma collation_compare_trans:
  "collation_compare a b \<le> 0 \<Longrightarrow> collation_compare b c \<le> 0 \<Longrightarrow> collation_compare a c \<le> 0"
  unfolding collation_compare_def by (rule code_unit_compare_trans)

text \<open>
  C3, as amended. The enrollment view holds one entry for each class of the Class
  collection: its label is \<open>Grade\<close> followed by the grade of the class and its count is
  the number of students whose \<open>classId\<close> equals the id of the class. The entries are
  ordered by label in the collation order of \<^verbatim>\<open>localeCompare\<close>, for every collation
  that is a total preorder. When the ids of the classes are distinct and every student is in
  one of the classes, the counts sum to the number of students; with 10 students, 6 in one
  and the others in the second of 2 classes, the view has two entries, with the counts 6
  and 4, summing to 10.
\<close>

theorem enrollment_by_grade:
  assumes total: "\<And>a b. 0 < localeCompare a b \<Longrightarrow> localeCompare b a \<le> 0"
    and trans: "\<And>a b c. localeCompare a b \<le> 0 \<Longrightarrow> localeCompare b c \<le> 0 \<Longrightarrow>
        localeCompare a c \<le> 0"
  shows "mset (studentsByGrade localeCompare st)
           = mset (map (grade_entry (students st)) (classes st))
       \<and> (\<forall>cls. entry_name (grade_entry (students st) cls) = ''Grade '' @ to_string (cls ''grade'')
             \<and> entry_count (grade_entry (students st) cls)
                 = length (filter (\<lambda>s. s ''classId'' = cls ''id'') (students st)))
       \<and> sorted_wrt (\<lambda>a b. localeCompare (entry_name a) (entry_name b) \<le> 0)
           (studentsByGrade localeCompare st)
       \<and> (distinct (map (\<lambda>c. c ''id'') (classes st))
            \<and> (\<forall>s \<in> set (students st). \<exists>c \<in> set (classes st). s ''classId'' = c ''id'') \<longrightarrow>
          sum_list (map entry_count (studentsByGrade localeCompare st)) = length (students st))
       \<and> (\<forall>c1 c2. classes st = [c1, c2] \<and> c1 ''id'' \<noteq> c2 ''id'' \<and> length (students st) = 10
            \<and> length (filter (\<lambda>s. s ''classId'' = c1 ''id'') (students st)) = 6
            \<and> (\<forall>s \<in> set (students st). s ''classId'' = c1 ''id'' \<or> s ''classId'' = c2 ''id'') \<longrightarrow>
          length (studentsByGrade localeCompare st) = 2
          \<and> sum_list (map entry_count (studentsByGrade localeCompare st)) = 10
          \<and> mset (map entry_count (studentsByGrade localeCompare st)) = {#6, 4#})"
proof -
  let ?cmp = "\<lambda>a b. Some (localeCompare (entry_name a) (entry_name b))"
  let ?es = "map (grade_entry (students st)) (classes st)"
  have a: "mset (studentsByGrade localeCompare st) = mset ?es"
    by (simp add: studentsByGrade_def mset_array_sort)
  have b: "\<forall>cls. entry_name (grade_entry (students st) cls) = ''Grade '' @ to_string (cls ''grade'')
             \<and> entry_count (grade_entry (students st) cls)
                 = length (filter (\<lambda>s. s ''classId'' = cls ''id'') (students st))"
    by (simp add: grade_entry_def)
  have c: "sorted_wrt (\<lambda>a b. localeCompare (entry_name a) (entry_name b) \<le> 0)
           (studentsByGrade localeCompare st)"
    by (rule studentsByGrade_sorted) (fact total trans)+
  have d: "distinct (map (\<lambda>c. c ''id'') (classes st))
            \<and> (\<forall>s \<in> set (students st). \<exists>c \<in> set (classes st). s ''classId'' = c ''id'') \<longrightarrow>
          sum_list (map entry_count (studentsByGrade localeCompare st)) = length (students st)"
    by (simp add: sum_counts_sorted enrolled_total)
  have e: "\<forall>c1 c2. classes st = [c1, c2] \<and> c1 ''id'' \<noteq> c2 ''id'' \<and> length (students st) = 10
            \<and> length (filter (\<lambda>s. s ''classId'' = c1 ''id'') (students st)) = 6
            \<and> (\<forall>s \<in> set (students st). s ''classId'' = c1 ''id'' \<or> s ''classId'' = c2 ''id'') \<longrightarrow>
          length (studentsByGrade localeCompare st) = 2
          \<and> sum_list (map entry_count (studentsByGrade localeCompare st)) = 10
          \<and> mset (map entry_count (studentsByGrade localeCompare st)) = {#6, 4#}"
  proof (intro allI impI, elim conjE)
    fix c1 c2
    assume cs: "classes st = [c1, c2]" and ne: "c1 ''id'' \<noteq> c2 ''id''"
      and ten: "length (students st) = 10"
      and six: "length (filter (\<lambda>s. s ''classId'' = c1 ''id'') (students st)) = 6"
      and split: "\<forall>s \<in> set (students st). s ''classId'' = c1 ''id'' \<or> s ''classId'' = c2 ''id''"
    have len: "length (studentsByGrade localeCompare st) = 2"
      by (simp add: studentsByGrade_def length_array_sort cs)
    have "sum_list (map (\<lambda>c. length (filter (\<lambda>s. s ''classId'' = c ''id'') (students st)))
        (classes st)) = length (students st)"
      using ne split by (intro enrolled_total) (auto simp: cs)
    with six ten have four: "length (filter (\<lambda>s. s ''classId'' = c2 ''id'') (students st)) = 4"
      by (simp add: cs)
    have sum: "sum_list (map entry_count (studentsByGrade localeCompare st)) = 10"
      by (simp add: sum_counts_sorted cs six four)
    have "mset (map entry_count (studentsByGrade localeCompare st))
        = mset (map entry_count ?es)"
      unfolding studentsByGrade_def by (simp only: mset_map mset_array_sort)
    then have "mset (map entry_count (studentsByGrade localeCompare st)) = {#6, 4#}"
      by (simp add: cs grade_entry_def six four)
    with len sum show "length (studentsByGrade localeCompare st) = 2
          \<and> sum_list (map entry_count (studentsByGrade localeCompare st)) = 10
          \<and> mset (map entry_count (studentsByGrade localeCompare st)) = {#6, 4#}"
      by blast
  qed
  from a b c d e show ?thesis by blast
qed

theorem enrollment_by_grade_witness:
  "studentsByGrade collation_compare
     (initial_dashboard\<lparr>
        classes := [ [''id'' \<mapsto> ''c6'', ''grade'' \<mapsto> ''6''], [''id'' \<mapsto> ''c5'', ''grade'' \<mapsto> ''5''] ],
        students := replicate 6 [''name'' \<mapsto> ''Ann'', ''classId'' \<mapsto> ''c6'']
                    @ replicate 4 [''name'' \<mapsto> ''Ben'', ''classId'' \<mapsto> ''c5'']\<rparr>)
     = [\<lparr>entry_name = ''Grade 5'', entry_count = 4\<rparr>, \<lparr>entry_name = ''Grade 6'', entry_count = 6\<rparr>]
   \<and> sum_list (map entry_count (studentsByGrade collation_compare
     (initial_dashboard\<lparr>
        classes := [ [''id'' \<mapsto> ''c6'', ''grade'' \<mapsto> ''6''], [''id'' \<mapsto> ''c5'', ''grade'' \<mapsto> ''5''] ],
        students := replicate 6 [''name'' \<mapsto> ''Ann'', ''classId'' \<mapsto> ''c6'']
                    @ replicate 4 [''name'' \<mapsto> ''Ben'', ''classId'' \<mapsto> ''c5'']\<rparr>))) = 10"
proof -
  let ?c6 = "[''id'' \<mapsto> ''c6'', ''grade'' \<mapsto> ''6'']"
  let ?c5 = "[''id'' \<mapsto> ''c5'', ''grade'' \<mapsto> ''5'']"
  let ?ann = "[''name'' \<mapsto> ''Ann'', ''classId'' \<mapsto> ''c6'']"
  let ?ben = "[''name'' \<mapsto> ''Ben'', ''classId'' \<mapsto> ''c5'']"
  let ?st = "initial_dashboard\<lparr>classes := [?c6, ?c5],
        students := replicate 6 ?ann @ replicate 4 ?ben\<rparr>"
  have cs: "classes ?st = [?c6, ?c5]" by simp
  have ne: "?c6 ''id'' \<noteq> ?c5 ''id''" by simp
  have ten: "length (students ?st) = 10" by simp
  have six: "length (filter (\<lambda>s. s ''classId'' = ?c6 ''id'') (students ?st)) = 6" by simp
  have four: "length (filter (\<lambda>s. s ''classId'' = ?c5 ''id'') (students ?st)) = 4" by simp
  have split: "\<forall>s \<in> set (students ?st). s ''classId'' = ?c6 ''id'' \<or> s ''classId'' = ?c5 ''id''"
    by auto
  have "\<forall>c1 c2. classes ?st = [c1, c2] \<and> c1 ''id'' \<noteq> c2 ''id''
            \<and> length (students ?st) = 10
            \<and> length (filter (\<lambda>s. s ''classId'' = c1 ''id'') (students ?st)) = 6
            \<and> (\<forall>s \<in> set (students ?st). s ''classId'' = c1 ''id'' \<or> s ''classId'' = c2 ''id'') \<longrightarrow>
          length (studentsByGrade collation_compare ?st) = 2
          \<and> sum_list (map entry_count (studentsByGrade collation_compare ?st)) = 10
          \<and> mset (map entry_count (studentsByGrade collation_compare ?st)) = {#6, 4#}"
  proof (rule enrollment_by_grade [of collation_compare ?st,
        THEN conjunct2, THEN conjunct2, THEN conjunct2, THEN conjunct2])
    show "\<And>a b. 0 < collation_compare a b \<Longrightarrow> collation_compare b a \<le> 0"
      by (rule collation_compare_total)
    show "\<And>a b c. collation_compare a b \<le> 0 \<Longrightarrow> collation_compare b c \<le> 0 \<Longrightarrow>
        collation_compare a c \<le> 0"
      by (rule collation_compare_trans)
  qed
  with cs ne ten six split
  have sum: "sum_list (map entry_count (studentsByGrade collation_compare ?st)) = 10"
    by blast
  have g6: "grade_entry (students ?st) ?c6 = \<lparr>entry_name = ''Grade 6'', entry_count = 6\<rparr>"
    using six by (simp add: grade_entry_def to_string_def)
  have g5: "grade_entry (students ?st) ?c5 = \<lparr>entry_name = ''Grade 5'', entry_count = 4\<rparr>"
    using four by (simp add: grade_entry_def to_string_def)
  have cmp: "\<not> collation_compare ''Grade 6'' ''Grade 5'' \<le> 0"
    by (simp add: collation_compare_def code_unit_compare_def fold_case_def less_char_def)
  have "studentsByGrade collation_compare ?st
      = [\<lparr>entry_name = ''Grade 5'', entry_count = 4\<rparr>, \<lparr>entry_name = ''Grade 6'', entry_count = 6\<rparr>]"
    unfolding studentsByGrade_def cs list.map g6 g5
    using cmp by (simp add: array_sort_def sort_compare_def)
  with sum show ?thesis by (rule conjI [rotated])
qed

text \<open>
  Two classes with the grades \<open>B\<close> and \<open>a\<close> under the collation that ignores case,
  which agrees with the runtime's \<^verbatim>\<open>localeCompare\<close> on the two labels: the view lists
  \<open>Grade a\<close> before \<open>Grade B\<close>, and that is not the lexicographic order of the labels.
\<close>

theorem collation_order_counterexample:
  "map entry_name (studentsByGrade collation_compare
     (initial_dashboard\<lparr>
        classes := [ [''id'' \<mapsto> ''c1'', ''grade'' \<mapsto> ''B''], [''id'' \<mapsto> ''c2'', ''grade'' \<mapsto> ''a''] ]\<rparr>))
     = [''Grade a'', ''Grade B'']
   \<and> \<not> sorted (map entry_name (studentsByGrade collation_compare
     (initial_dashboard\<lparr>
        classes := [ [''id'' \<mapsto> ''c1'', ''grade'' \<mapsto> ''B''], [''id'' \<mapsto> ''c2'', ''grade'' \<mapsto> ''a''] ]\<rparr>)))"
proof -
  let ?cB = "[''id'' \<mapsto> ''c1'', ''grade'' \<mapsto> ''B'']"
  let ?ca = "[''id'' \<mapsto> ''c2'', ''grade'' \<mapsto> ''a'']"
  let ?st = "initial_dashboard\<lparr>classes := [?cB, ?ca]\<rparr>"
  have cs: "classes ?st = [?cB, ?ca]" by simp
  have gB: "grade_entry (students ?st) ?cB = \<lparr>entry_name = ''Grade B'', entry_count = 0\<rparr>"
    by (simp add: grade_entry_def to_string_def initial_dashboard_def)
  have ga: "grade_entry (students ?st) ?ca = \<lparr>entry_name = ''Grade a'', entry_count = 0\<rparr>"
    by (simp add: grade_entry_def to_string_def initial_dashboard_def)
  have cmp: "\<not> collation_compare ''Grade B'' ''Grade a'' \<le> 0"
    by (simp add: collation_compare_def code_unit_compare_def fold_case_def less_char_def)
  have names: "map entry_name (studentsByGrade collation_compare ?st) = [''Grade a'', ''Grade B'']"
    unfolding studentsByGrade_def cs list.map gB ga
    using cmp by (simp add: array_sort_def sort_compare_def)
  have "\<not> sorted [''Grade a'', ''Grade B'']"
    by (simp add: less_eq_char_def less_char_def)
  with names show ?thesis by simp
qed

section \<open>The timetable subscription\<close>

lemma view_inv_mounted: "view_inv mounted"
  by (simp add: view_inv_def mounted_def timetable_effect_def)

lemma view_inv_select: "view_inv v \<Longrightarrow> view_inv (select_class c v)"
  by (auto simp: view_inv_def select_class_def timetable_effect_def run_cleanup_def unsub_def
      dbListen_def split: option.splits)

lemma view_inv_emit: "view_inv v \<Longrightarrow> view_inv (emit i data v)"
  by (auto simp: view_inv_def emit_def split: option.splits)

lemma view_inv_step: "view_inv v \<Longrightarrow> view_inv (step v e)"
  by (cases e) (simp_all add: view_inv_select view_inv_emit)

lemma view_inv_foldl: "view_inv v \<Longrightarrow> view_inv (foldl step v evs)"
  by (induction evs arbitrary: v) (simp_all add: view_inv_step)

lemma view_inv_run: "view_inv (run evs)"
  unfolding run_def by (rule view_inv_foldl [OF view_inv_mounted])

lemma released_select: "view_inv v \<Longrightarrow> released i v \<Longrightarrow> released i (select_class c v)"
  by (auto simp: view_inv_def released_def select_class_def timetable_effect_def
      run_cleanup_def unsub_def dbListen_def split: option.splits)

lemma released_emit: "released i v \<Longrightarrow> released i (emit j data v)"
  by (simp add: released_def emit_def)

lemma released_step: "view_inv v \<Longrightarrow> released i v \<Longrightarrow> released i (step v e)"
  by (cases e) (simp_all add: released_select released_emit)

lemma released_foldl:
  "view_inv v \<Longrightarrow> released i v \<Longrightarrow> released i (foldl step v evs)"
  by (induction evs arbitrary: v) (simp_all add: released_step view_inv_step)

lemma emit_released: "released i v \<Longrightarrow> emit i data v = v"
  by (simp add: released_def emit_def)

lemma switch_releases:
  assumes "view_inv v" and "cleanup v = Some i" and "c \<noteq> selectedTimetableClass v"
  shows "released i (select_class c v)"
  using assms
  by (auto simp: view_inv_def released_def select_class_def timetable_effect_def
      run_cleanup_def unsub_def dbListen_def)

lemma switch_calls:
  assumes "view_inv v" and "cleanup v = Some i" and "c \<noteq> selectedTimetableClass v"
  shows "adapter_calls (select_class c v)
      = adapter_calls v @ Unsubscribe i
          # (if c = [] then [] else [Subscribe (next_id v) (''schedules/'' @ c)])"
  using assms
  by (auto simp: view_inv_def select_class_def timetable_effect_def
      run_cleanup_def unsub_def dbListen_def)

lemma run_append: "run (evs @ evs') = foldl step (run evs) evs'"
  by (simp add: run_def)

text \<open>
  C6. In every state the timetable view reaches: when no class is selected the timetable
  is empty and the adapter holds no listener, and selecting no class empties the timetable
  at once; the adapter never holds more than one listener, and it is on the path of the
  selected class. When the selection changes while a listener is registered, that listener
  is unsubscribed before the new subscription is made, and from then on no snapshot of the
  old listener changes the view.
\<close>

theorem timetable_subscription:
  "(selectedTimetableClass (run evs) = [] \<longrightarrow>
      timetableData (run evs) = [] \<and> listeners (run evs) = [])
   \<and> timetableData (run (evs @ [Select [] ])) = []
   \<and> listeners (run (evs @ [Select [] ])) = []
   \<and> length (listeners (run evs)) \<le> 1
   \<and> (\<forall>l \<in> set (listeners (run evs)). snd l = ''schedules/'' @ selectedTimetableClass (run evs))
   \<and> (\<forall>i p c. (i, p) \<in> set (listeners (run evs)) \<and> c \<noteq> selectedTimetableClass (run evs) \<longrightarrow>
         adapter_calls (run (evs @ [Select c]))
           = adapter_calls (run evs) @ Unsubscribe i
               # (if c = [] then [] else [Subscribe (next_id (run evs)) (''schedules/'' @ c)])
         \<and> (\<forall>later data. emit i data (run (evs @ Select c # later))
                            = run (evs @ Select c # later)))"
proof -
  let ?v = "run evs"
  have inv: "view_inv ?v" by (rule view_inv_run)
  have a: "selectedTimetableClass ?v = [] \<longrightarrow> timetableData ?v = [] \<and> listeners ?v = []"
    using inv by (auto simp: view_inv_def split: option.splits)
  have sel: "selectedTimetableClass (run (evs @ [Select [] ])) = []"
    by (simp add: run_append select_class_def timetable_effect_def run_cleanup_def unsub_def
        split: option.splits)
  have inv': "view_inv (run (evs @ [Select [] ]))" by (rule view_inv_run)
  have b: "timetableData (run (evs @ [Select [] ])) = []"
    and b': "listeners (run (evs @ [Select [] ])) = []"
    using inv' sel by (auto simp: view_inv_def split: option.splits)
  have c: "length (listeners ?v) \<le> 1"
    using inv by (auto simp: view_inv_def split: option.splits)
  have d: "\<forall>l \<in> set (listeners ?v). snd l = ''schedules/'' @ selectedTimetableClass ?v"
    using inv by (auto simp: view_inv_def split: option.splits)
  have e: "\<forall>i p c. (i, p) \<in> set (listeners ?v) \<and> c \<noteq> selectedTimetableClass ?v \<longrightarrow>
         adapter_calls (run (evs @ [Select c]))
           = adapter_calls ?v @ Unsubscribe i
               # (if c = [] then [] else [Subscribe (next_id ?v) (''schedules/'' @ c)])
         \<and> (\<forall>later data. emit i data (run (evs @ Select c # later))
                            = run (evs @ Select c # later))"
  proof (intro allI impI, elim conjE)
    fix i p c
    assume l: "(i, p) \<in> set (listeners ?v)" and ne: "c \<noteq> selectedTimetableClass ?v"
    from inv l have cl: "cleanup ?v = Some i"
      by (auto simp: view_inv_def split: option.splits)
    have calls: "adapter_calls (run (evs @ [Select c]))
           = adapter_calls ?v @ Unsubscribe i
               # (if c = [] then [] else [Subscribe (next_id ?v) (''schedules/'' @ c)])"
      using switch_calls [OF inv cl ne] by (simp add: run_append)
    have rel: "released i (select_class c ?v)"
      by (rule switch_releases [OF inv cl ne])
    have "\<forall>later data. emit i data (run (evs @ Select c # later)) = run (evs @ Select c # later)"
    proof (intro allI)
      fix later data
      have "released i (foldl step (select_class c ?v) later)"
        by (rule released_foldl [OF view_inv_select [OF inv] rel])
      then show "emit i data (run (evs @ Select c # later)) = run (evs @ Select c # later)"
        by (simp add: run_append emit_released)
    qed
    with calls show "adapter_calls (run (evs @ [Select c]))
           = adapter_calls ?v @ Unsubscribe i
               # (if c = [] then [] else [Subscribe (next_id ?v) (''schedules/'' @ c)])
         \<and> (\<forall>later data. emit i data (run (evs @ Select c # later))
                            = run (evs @ Select c # later))"
      by (rule conjI)
  qed
  from a b b' c d e show ?thesis by blast
qed

lemma run_example:
  "run [Select ''c1'', Emit 0 (Some [(''Monday'', [(''Math'', ''09:00'')])])]
     = \<lparr> selectedTimetableClass = ''c1'',
         timetableData = [(''Monday'', [(''Math'', ''09:00'')])],
         cleanup = Some 0, listeners = [(0, ''schedules/c1'')], next_id = 1,
         adapter_calls = [Subscribe 0 ''schedules/c1''] \<rparr>"
  by (simp add: run_def mounted_def timetable_effect_def select_class_def run_cleanup_def
      dbListen_def emit_def)

theorem timetable_subscription_witness:
  "adapter_calls (run ([Select ''c1'', Emit 0 (Some [(''Monday'', [(''Math'', ''09:00'')])])]
       @ [Select ''c2'']))
     = [Subscribe 0 ''schedules/c1'', Unsubscribe 0, Subscribe 1 ''schedules/c2'']
   \<and> emit 0 None (run ([Select ''c1'', Emit 0 (Some [(''Monday'', [(''Math'', ''09:00'')])])]
       @ Select ''c2'' # []))
     = run ([Select ''c1'', Emit 0 (Some [(''Monday'', [(''Math'', ''09:00'')])])]
       @ Select ''c2'' # [])"
proof -
  let ?evs = "[Select ''c1'', Emit 0 (Some [(''Monday'', [(''Math'', ''09:00'')])])]"
  have l: "(0, ''schedules/c1'') \<in> set (listeners (run ?evs))
      \<and> ''c2'' \<noteq> selectedTimetableClass (run ?evs)"
    unfolding run_example by simp
  from timetable_subscription [of ?evs] l
  have "adapter_calls (run (?evs @ [Select ''c2'']))
           = adapter_calls (run ?evs) @ Unsubscribe 0
               # (if ''c2'' = [] then [] else [Subscribe (next_id (run ?evs)) (''schedules/'' @ ''c2'')])
         \<and> (\<forall>later data. emit 0 data (run (?evs @ Select ''c2'' # later))
                            = run (?evs @ Select ''c2'' # later))"
    by blast
  then show ?thesis unfolding run_example by simp
qed

section \<open>The paths of the remote store\<close>

lemma subscribed_append: "subscribed (xs @ ys) = subscribed xs @ subscribed ys"
  by (induction xs rule: subscribed.induct) simp_all

lemma subscribed_select:
  "subscribed (adapter_calls (select_class c v))
     = subscribed (adapter_calls v)
         @ (if c \<noteq> selectedTimetableClass v \<and> c \<noteq> [] then [''schedules/'' @ c] else [])"
  by (simp add: select_class_def timetable_effect_def run_cleanup_def unsub_def dbListen_def
      subscribed_append split: option.splits)

lemma calls_emit: "adapter_calls (emit i data v) = adapter_calls v"
  by (simp add: emit_def)

lemma subscribed_run:
  "p \<in> set (subscribed (adapter_calls (run evs))) \<Longrightarrow>
   \<exists>c. c \<noteq> [] \<and> Select c \<in> set evs \<and> p = ''schedules/'' @ c"
proof (induction evs arbitrary: p rule: rev_induct)
  case Nil
  then show ?case by (simp add: run_def mounted_def timetable_effect_def)
next
  case (snoc e evs)
  show ?case
  proof (cases e)
    case (Select c)
    with snoc.prems have "p \<in> set (subscribed (adapter_calls (run evs)))
        \<or> (c \<noteq> [] \<and> p = ''schedules/'' @ c)"
      by (auto simp: run_append subscribed_select split: if_splits)
    then show ?thesis
    proof
      assume "p \<in> set (subscribed (adapter_calls (run evs)))"
      from snoc.IH [OF this] show ?thesis by auto
    next
      assume "c \<noteq> [] \<and> p = ''schedules/'' @ c"
      with Select show ?thesis by auto
    qed
  next
    case (Emit i data)
    with snoc.prems have "p \<in> set (subscribed (adapter_calls (run evs)))"
      by (simp add: run_append calls_emit)
    from snoc.IH [OF this] show ?thesis by auto
  qed
qed

lemma push_paths:
  "set (map fst (pushes (snd (handleAddTeacher now ok st)))) \<subseteq> {''teachers''}"
  "set (map fst (pushes (snd (handleAddClass now ok st)))) \<subseteq> {''classes''}"
  "set (map fst (pushes (snd (handleAddStudent now ok st)))) \<subseteq> {''students''}"
  "set (map fst (pushes (snd (handleAddAnnouncement now ok st)))) \<subseteq> {''announcements''}"
  by (simp_all add: handleAddTeacher_def handleAddClass_def handleAddStudent_def
      handleAddAnnouncement_def Let_def)

text \<open>
  C8, as amended. The first effect subscribes to exactly \<open>teachers\<close>, \<open>classes\<close>,
  \<open>students\<close> and \<open>announcements\<close>; every other subscription is to
  \<open>schedules/{classId}\<close> for a class that was selected, and selecting another class
  subscribes to that path (the day is a key of the snapshot, not a part of the path). The
  submit handlers push to the four collection paths only, each to its own, and the delete
  button of a record listed under the snapshot key \<open>k\<close> removes the path
  \<open>{collection}/{k}\<close>.
\<close>

theorem store_paths:
  "map fst (mount_listeners parse) = [''teachers'', ''classes'', ''students'', ''announcements'']
   \<and> (\<forall>p \<in> set (subscribed (adapter_calls (run evs))).
         \<exists>c. c \<noteq> [] \<and> Select c \<in> set evs \<and> p = ''schedules/'' @ c)
   \<and> (\<forall>c. c \<noteq> [] \<and> c \<noteq> selectedTimetableClass (run evs) \<longrightarrow>
         subscribed (adapter_calls (run (evs @ [Select c])))
           = subscribed (adapter_calls (run evs)) @ [''schedules/'' @ c])
   \<and> set (map fst (pushes (snd (handleAddTeacher now ok st)))) \<subseteq> {''teachers''}
   \<and> set (map fst (pushes (snd (handleAddClass now ok st)))) \<subseteq> {''classes''}
   \<and> set (map fst (pushes (snd (handleAddStudent now ok st)))) \<subseteq> {''students''}
   \<and> set (map fst (pushes (snd (handleAddAnnouncement now ok st)))) \<subseteq> {''announcements''}
   \<and> (\<forall>collection k body. body ''id'' = None \<longrightarrow>
         remove_record collection (with_id (k, body)) = DbRemove (collection @ ''/'' @ k))"
proof -
  have a: "map fst (mount_listeners parse)
      = [''teachers'', ''classes'', ''students'', ''announcements'']"
    by (simp add: mount_listeners_def)
  have b: "\<forall>p \<in> set (subscribed (adapter_calls (run evs))).
         \<exists>c. c \<noteq> [] \<and> Select c \<in> set evs \<and> p = ''schedules/'' @ c"
    using subscribed_run by blast
  have c: "\<forall>c. c \<noteq> [] \<and> c \<noteq> selectedTimetableClass (run evs) \<longrightarrow>
         subscribed (adapter_calls (run (evs @ [Select c])))
           = subscribed (adapter_calls (run evs)) @ [''schedules/'' @ c]"
    by (simp add: run_append subscribed_select)
  have d: "\<forall>collection k body. body ''id'' = None \<longrightarrow>
         remove_record collection (with_id (k, body)) = DbRemove (collection @ ''/'' @ k)"
    by (simp add: remove_record_def with_id_def map_add_def to_string_def)
  from a b c d push_paths [of now ok st] show ?thesis by blast
qed

theorem store_paths_witness:
  "subscribed (adapter_calls (run ([Select ''c1''] @ [Select ''c2''])))
     = [''schedules/c1'', ''schedules/c2'']
   \<and> remove_record ''teachers'' (with_id (''k1'', [''name'' \<mapsto> ''Ada''])) = DbRemove ''teachers/k1''"
proof -
  have r: "run [Select ''c1'']
      = \<lparr> selectedTimetableClass = ''c1'', timetableData = [], cleanup = Some 0,
          listeners = [(0, ''schedules/c1'')], next_id = 1,
          adapter_calls = [Subscribe 0 ''schedules/c1''] \<rparr>"
    by (simp add: run_def mounted_def timetable_effect_def select_class_def run_cleanup_def
        dbListen_def)
  have h: "''c2'' \<noteq> [] \<and> ''c2'' \<noteq> selectedTimetableClass (run [Select ''c1''])"
    unfolding r by simp
  have n: "[''name'' \<mapsto> ''Ada''] ''id'' = None" by simp
  note s = store_paths [of Map.empty "[Select ''c1'']" "''now''" True initial_dashboard]
  from s h have "subscribed (adapter_calls (run ([Select ''c1''] @ [Select ''c2''])))
           = subscribed (adapter_calls (run [Select ''c1''])) @ [''schedules/'' @ ''c2'']"
    by blast
  then have a: "subscribed (adapter_calls (run ([Select ''c1''] @ [Select ''c2''])))
     = [''schedules/c1'', ''schedules/c2'']"
    unfolding r by simp
  from s n have "remove_record ''teachers'' (with_id (''k1'', [''name'' \<mapsto> ''Ada'']))
      = DbRemove (''teachers'' @ ''/'' @ ''k1'')"
    by blast
  then have b: "remove_record ''teachers'' (with_id (''k1'', [''name'' \<mapsto> ''Ada'']))
      = DbRemove ''teachers/k1''"
    by simp
  from a b show ?thesis by (rule conjI)
qed

theorem schedule_path_counterexample:
  "subscribed (adapter_calls (run [Select ''c1''])) = [''schedules/c1'']
   \<and> \<not> spec_path ''c1'' ''schedules/c1''"
  by (simp add: run_def mounted_def timetable_effect_def select_class_def run_cleanup_def
      dbListen_def spec_path_def mount_paths_def)

end
